theory Spec2Isabelle
  imports Main "HOL-Library.Char_ord" "HOL-Library.List_Lexorder" "HOL-Library.AList"
begin

section \<open>Python values\<close>

text \<open>
  The script \<^verbatim>\<open>fix_vial_shot_distribution.py\<close> works on untyped Python values: the items
  of the table are dictionaries from attribute names to values. A string is a
  \<^typ>\<open>string\<close>, each character standing for one code point below 256; \<open><\<close> on strings is
  the lexicographic order by character code, as Python's. A dictionary is an association
  list in insertion order, read with \<^const>\<open>map_of\<close>.

  Python's \<^verbatim>\<open>float\<close> and \<^verbatim>\<open>Decimal\<close> are not modelled: their values are drawn from a type
  parameter \<open>'f\<close>, and the builtins that compute with them are the fields of a record that
  every function of the model takes as its first argument. Nothing is assumed about them.
\<close>

datatype error = TypeError | KeyError | ValueError

datatype 'f pyval =
    PNone
  | PBool bool
  | PInt int
  | PFloat 'f
  | PDecimal 'f
  | PStr string
  | PDict "(string \<times> 'f pyval) list"

type_synonym 'f pydict = "(string \<times> 'f pyval) list"

record 'f builtins =
  float_of :: "'f pyval \<Rightarrow> error + 'f"
  str_other :: "'f pyval \<Rightarrow> string"
  float_nonzero :: "'f \<Rightarrow> bool"
  decimal_nonzero :: "'f \<Rightarrow> bool"
  add :: "'f pyval \<Rightarrow> 'f pyval \<Rightarrow> error + 'f pyval"
  num_eq :: "'f pyval \<Rightarrow> 'f pyval \<Rightarrow> bool"

text \<open>
  \<open>float_of v\<close> is \<^verbatim>\<open>float(v)\<close> (\<open>Inl\<close> when it raises), \<open>str_other v\<close> is \<^verbatim>\<open>str(v)\<close> for a
  number or a dictionary, \<open>float_nonzero\<close> and \<open>decimal_nonzero\<close> are the truth values of
  numbers, \<open>add a b\<close> is \<^verbatim>\<open>a + b\<close>, and \<open>num_eq a b\<close> is \<^verbatim>\<open>a == b\<close> for two numbers.
\<close>

fun py_truthy :: "'f builtins \<Rightarrow> 'f pyval \<Rightarrow> bool" where
  "py_truthy B PNone = False"
| "py_truthy B (PBool b) = b"
| "py_truthy B (PInt i) = (i \<noteq> 0)"
| "py_truthy B (PFloat x) = float_nonzero B x"
| "py_truthy B (PDecimal x) = decimal_nonzero B x"
| "py_truthy B (PStr s) = (s \<noteq> [])"
| "py_truthy B (PDict d) = (d \<noteq> [])"

fun py_str :: "'f builtins \<Rightarrow> 'f pyval \<Rightarrow> string" where
  "py_str B (PStr s) = s"
| "py_str B PNone = ''None''"
| "py_str B (PBool b) = (if b then ''True'' else ''False'')"
| "py_str B v = str_other B v"

text \<open>\<^verbatim>\<open>a or b\<close>.\<close>

definition py_or :: "'f builtins \<Rightarrow> 'f pyval \<Rightarrow> 'f pyval \<Rightarrow> 'f pyval" where
  "py_or B a b = (if py_truthy B a then a else b)"

text \<open>\<^verbatim>\<open>d.get(k)\<close> and \<^verbatim>\<open>d.get(k, default)\<close>.\<close>

definition dict_get :: "'f pydict \<Rightarrow> string \<Rightarrow> 'f pyval \<Rightarrow> 'f pyval" where
  "dict_get d k dflt = (case map_of d k of None \<Rightarrow> dflt | Some v \<Rightarrow> v)"

text \<open>\<^verbatim>\<open>d[k]\<close>, which raises KeyError on a missing key.\<close>

definition dict_item :: "'f pydict \<Rightarrow> string \<Rightarrow> error + 'f pyval" where
  "dict_item d k = (case map_of d k of None \<Rightarrow> Inl KeyError | Some v \<Rightarrow> Inr v)"

text \<open>\<^verbatim>\<open>v[:n]\<close> where the code goes on to use the slice as a string.\<close>

fun str_prefix :: "nat \<Rightarrow> 'f pyval \<Rightarrow> error + string" where
  "str_prefix n (PStr s) = Inr (take n s)"
| "str_prefix n v = Inl TypeError"

text \<open>\<^verbatim>\<open>ds in s\<close> on strings: \<open>ds\<close> occurs in \<open>s\<close> as a contiguous run.\<close>

fun str_contains :: "string \<Rightarrow> string \<Rightarrow> bool" where
  "str_contains ds [] = (ds = [])"
| "str_contains ds (c # cs) = (take (length ds) (c # cs) = ds \<or> str_contains ds cs)"

section \<open>Record store adapter: marshalling\<close>

text \<open>
  \<^verbatim>\<open>
  def parse_dynamo_value(value):
      if 'S' in value:
          return value['S']
      elif 'N' in value:
          return float(value['N'])
      elif 'NULL' in value:
          return None
      elif 'BOOL' in value:
          return value['BOOL']
      return value
  \<close>
  The argument is the dictionary the store returns for one attribute.
\<close>

definition parse_dynamo_value :: "'f builtins \<Rightarrow> 'f pydict \<Rightarrow> error + 'f pyval" where
  "parse_dynamo_value B value =
     (case map_of value ''S'' of
        Some s \<Rightarrow> Inr s
      | None \<Rightarrow>
     (case map_of value ''N'' of
        Some n \<Rightarrow> (case float_of B n of Inl e \<Rightarrow> Inl e | Inr x \<Rightarrow> Inr (PFloat x))
      | None \<Rightarrow>
     (case map_of value ''NULL'' of
        Some u \<Rightarrow> Inr PNone
      | None \<Rightarrow>
     (case map_of value ''BOOL'' of
        Some b \<Rightarrow> Inr b
      | None \<Rightarrow> Inr (PDict value)))))"

text \<open>
  \<^verbatim>\<open>isinstance\<close> tests of \<^verbatim>\<open>format_dynamo_value\<close>. In Python \<^verbatim>\<open>bool\<close> is a subclass of
  \<^verbatim>\<open>int\<close>, so a boolean is an instance of \<^verbatim>\<open>(int, float, Decimal)\<close>.
\<close>

fun isinstance_str :: "'f pyval \<Rightarrow> bool" where
  "isinstance_str (PStr s) = True"
| "isinstance_str v = False"

fun isinstance_number :: "'f pyval \<Rightarrow> bool" where
  "isinstance_number (PInt i) = True"
| "isinstance_number (PBool b) = True"
| "isinstance_number (PFloat x) = True"
| "isinstance_number (PDecimal x) = True"
| "isinstance_number v = False"

fun isinstance_bool :: "'f pyval \<Rightarrow> bool" where
  "isinstance_bool (PBool b) = True"
| "isinstance_bool v = False"

text \<open>
  \<^verbatim>\<open>
  def format_dynamo_value(value):
      if value is None:
          return {'NULL': True}
      elif isinstance(value, str):
          return {'S': value}
      elif isinstance(value, (int, float, Decimal)):
          return {'N': str(value)}
      elif isinstance(value, bool):
          return {'BOOL': value}
      return {'S': str(value)}
  \<close>
\<close>

definition format_dynamo_value :: "'f builtins \<Rightarrow> 'f pyval \<Rightarrow> 'f pydict" where
  "format_dynamo_value B value =
     (if value = PNone then [(''NULL'', PBool True)]
      else if isinstance_str value then [(''S'', value)]
      else if isinstance_number value then [(''N'', PStr (py_str B value))]
      else if isinstance_bool value then [(''BOOL'', value)]
      else [(''S'', PStr (py_str B value))])"

text \<open>
  \<^verbatim>\<open>
  def parse_item(item):
      return {k: parse_dynamo_value(v) for k, v in item.items()}
  \<close>
  The comprehension stops at the first value whose parsing raises.
\<close>

type_synonym 'f raw_item = "(string \<times> 'f pydict) list"

fun parse_item :: "'f builtins \<Rightarrow> 'f raw_item \<Rightarrow> error + 'f pydict" where
  "parse_item B [] = Inr []"
| "parse_item B ((k, v) # rest) =
     (case parse_dynamo_value B v of
        Inl e \<Rightarrow> Inl e
      | Inr pv \<Rightarrow> (case parse_item B rest of
                     Inl e \<Rightarrow> Inl e
                   | Inr r \<Rightarrow> Inr ((k, pv) # r)))"

section \<open>Assignment policy\<close>

text \<open>
  \<^verbatim>\<open>
  def get_correct_vial_for_date(date_str):
      if not date_str:
          return None
      date_prefix = date_str[:10]
      if date_prefix < '2025-09-13':
          return 'vial_20240805_1'
      elif date_prefix < '2025-10-29':
          return 'vial_20240805_2'
      else:
          return 'vial_20241029_1'

  DRY_STOCK_VIALS = ['vial_20241029_2', 'vial_20241029_3', 'vial_20241029_4']
  \<close>
  The argument is whatever the item holds under \<^verbatim>\<open>timestamp\<close>. A value that is true and
  is not a string cannot be sliced and compared with a string: the call raises.
\<close>

definition get_correct_vial_for_date :: "'f builtins \<Rightarrow> 'f pyval \<Rightarrow> error + 'f pyval" where
  "get_correct_vial_for_date B date_str =
     (if \<not> py_truthy B date_str then Inr PNone
      else case str_prefix 10 date_str of
        Inl e \<Rightarrow> Inl e
      | Inr date_prefix \<Rightarrow>
          if date_prefix < ''2025-09-13'' then Inr (PStr ''vial_20240805_1'')
          else if date_prefix < ''2025-10-29'' then Inr (PStr ''vial_20240805_2'')
          else Inr (PStr ''vial_20241029_1''))"

definition DRY_STOCK_VIALS :: "string list" where
  "DRY_STOCK_VIALS = [''vial_20241029_2'', ''vial_20241029_3'', ''vial_20241029_4'']"

section \<open>Reconciliation planner\<close>

text \<open>
  What \<^verbatim>\<open>print\<close> writes is kept as the list of the lines printed, one string for each call;
  an f-string is the concatenation of its pieces, each value formatted by \<^const>\<open>py_str\<close>.
  What was printed before an exception is not kept.

  A change record is the dictionary that \<^verbatim>\<open>main\<close> appends to \<^verbatim>\<open>changes\<close>; its keys are
  fixed, so it is a record here.
\<close>

record 'f change =
  PK :: "'f pyval"
  SK :: "'f pyval"
  timestamp :: "'f pyval"
  doseMg :: "'f pyval"
  current_vial :: "'f pyval"
  correct_vial :: "'f pyval"

text \<open>
  \<^verbatim>\<open>
  needs_change = False
  if current_vial is None:
      needs_change = True
  elif any(ds in str(current_vial) for ds in DRY_STOCK_VIALS):
      needs_change = True
  elif current_vial != correct_vial:
      needs_change = True
  \<close>
  \<open>cur\<close> is \<^verbatim>\<open>current_vial\<close> and \<open>cor\<close> is \<^verbatim>\<open>correct_vial\<close>, which is a string here; a value that
  is not a string is unequal to every string, in Python as in this datatype.
\<close>

definition needs_change :: "'f builtins \<Rightarrow> 'f pyval \<Rightarrow> 'f pyval \<Rightarrow> bool" where
  "needs_change B cur cor =
     (if cur = PNone then True
      else if list_ex (\<lambda>ds. str_contains ds (py_str B cur)) DRY_STOCK_VIALS then True
      else if cur \<noteq> cor then True
      else False)"

text \<open>\<^verbatim>\<open>v[:10] if v else 'unknown'\<close>, as the report lines print a timestamp.\<close>

definition date_or_unknown :: "'f builtins \<Rightarrow> 'f pyval \<Rightarrow> error + string" where
  "date_or_unknown B v = (if py_truthy B v then str_prefix 10 v else Inr ''unknown'')"

text \<open>
  The body of the loop over the injections (lines 186 to 218): the change record to append,
  if any, and the line printed.
  \<^verbatim>\<open>
  for inj in injections:
      timestamp = inj.get('timestamp', '')
      current_vial = inj.get('vialId')
      correct_vial = get_correct_vial_for_date(timestamp)
      if not correct_vial:
          print(f"  [!] Cannot determine vial for {timestamp}")
          continue
      ... needs_change ...
      if needs_change:
          changes.append({'PK': inj['PK'], 'SK': inj['SK'], 'timestamp': timestamp,
                          'doseMg': inj.get('doseMg'),
                          'current_vial': current_vial or 'NULL',
                          'correct_vial': correct_vial})
          print(f"  {timestamp[:10] if timestamp else 'unknown'} ({inj.get('doseMg')}mg): "
                f"{current_vial or 'NULL'} -> {correct_vial}")
  \<close>
\<close>

definition change_for ::
  "'f builtins \<Rightarrow> 'f pydict \<Rightarrow> error + ('f change option \<times> string list)" where
  "change_for B injection =
     (let ts = dict_get injection ''timestamp'' (PStr []);
          cur = dict_get injection ''vialId'' PNone
      in case get_correct_vial_for_date B ts of
           Inl e \<Rightarrow> Inl e
         | Inr cor \<Rightarrow>
             if \<not> py_truthy B cor
             then Inr (None, [''  [!] Cannot determine vial for '' @ py_str B ts])
             else if needs_change B cur cor
             then (case dict_item injection ''PK'' of
                     Inl e \<Rightarrow> Inl e
                   | Inr pk \<Rightarrow>
                  (case dict_item injection ''SK'' of
                     Inl e \<Rightarrow> Inl e
                   | Inr sk \<Rightarrow>
                  (case date_or_unknown B ts of
                     Inl e \<Rightarrow> Inl e
                   | Inr day \<Rightarrow>
                       Inr (Some \<lparr>PK = pk, SK = sk, timestamp = ts,
                                  doseMg = dict_get injection ''doseMg'' PNone,
                                  current_vial = py_or B cur (PStr ''NULL''),
                                  correct_vial = cor\<rparr>,
                            [''  '' @ day @ '' ('' @ py_str B (dict_get injection ''doseMg'' PNone)
                               @ ''mg): '' @ py_str B (py_or B cur (PStr ''NULL''))
                               @ '' -> '' @ py_str B cor]))))
             else Inr (None, []))"

text \<open>The loop: \<^verbatim>\<open>changes\<close> and the lines printed, in the order of the injections.\<close>

fun calculate_changes ::
  "'f builtins \<Rightarrow> 'f pydict list \<Rightarrow> error + ('f change list \<times> string list)" where
  "calculate_changes B [] = Inr ([], [])"
| "calculate_changes B (injection # rest) =
     (case change_for B injection of
        Inl e \<Rightarrow> Inl e
      | Inr (c, out) \<Rightarrow>
          (case calculate_changes B rest of
             Inl e \<Rightarrow> Inl e
           | Inr (changes, outs) \<Rightarrow>
               Inr ((case c of None \<Rightarrow> changes | Some ch \<Rightarrow> ch # changes), out @ outs)))"

section \<open>Reports\<close>

text \<open>
  A dictionary key has to be hashable, which a dictionary is not; two keys are the same
  key when they are equal, and numbers of different types can be equal.
\<close>

fun hashable :: "'f pyval \<Rightarrow> bool" where
  "hashable (PDict d) = False"
| "hashable v = True"

definition py_eq :: "'f builtins \<Rightarrow> 'f pyval \<Rightarrow> 'f pyval \<Rightarrow> bool" where
  "py_eq B a b = (if isinstance_number a \<and> isinstance_number b then num_eq B a b else a = b)"

text \<open>
  The summary of the current distribution (lines 160 to 178).
  \<^verbatim>\<open>
  vial_shots = {}
  for inj in injections:
      vial_id = inj.get('vialId') or 'NULL/unassigned'
      if vial_id not in vial_shots:
          vial_shots[vial_id] = []
      vial_shots[vial_id].append({'timestamp': inj.get('timestamp'),
                                  'doseMg': inj.get('doseMg'),
                                  'SK': inj.get('SK'), 'PK': inj.get('PK')})
  \<close>
\<close>

fun append_shot ::
  "'f builtins \<Rightarrow> 'f pyval \<Rightarrow> 'f pydict \<Rightarrow> ('f pyval \<times> 'f pydict list) list \<Rightarrow>
   ('f pyval \<times> 'f pydict list) list" where
  "append_shot B vial_id shot [] = [(vial_id, [shot])]"
| "append_shot B vial_id shot ((k, shots) # rest) =
     (if py_eq B k vial_id then (k, shots @ [shot]) # rest
      else (k, shots) # append_shot B vial_id shot rest)"

fun group_shots ::
  "'f builtins \<Rightarrow> 'f pydict list \<Rightarrow> ('f pyval \<times> 'f pydict list) list \<Rightarrow>
   error + ('f pyval \<times> 'f pydict list) list" where
  "group_shots B [] vial_shots = Inr vial_shots"
| "group_shots B (injection # rest) vial_shots =
     (let vial_id = py_or B (dict_get injection ''vialId'' PNone) (PStr ''NULL/unassigned'');
          shot = [(''timestamp'', dict_get injection ''timestamp'' PNone),
                  (''doseMg'', dict_get injection ''doseMg'' PNone),
                  (''SK'', dict_get injection ''SK'' PNone),
                  (''PK'', dict_get injection ''PK'' PNone)]
      in if \<not> hashable vial_id then Inl TypeError
         else group_shots B rest (append_shot B vial_id shot vial_shots))"

text \<open>\<^verbatim>\<open>sum(s['doseMg'] or 0 for s in shots)\<close>, from the total so far.\<close>

fun sum_doses :: "'f builtins \<Rightarrow> 'f pyval \<Rightarrow> 'f pydict list \<Rightarrow> error + 'f pyval" where
  "sum_doses B total_mg [] = Inr total_mg"
| "sum_doses B total_mg (s # rest) =
     (case add B total_mg (py_or B (dict_get s ''doseMg'' PNone) (PInt 0)) of
        Inl e \<Rightarrow> Inl e
      | Inr t \<Rightarrow> sum_doses B t rest)"

text \<open>
  \<^verbatim>\<open>
  for shot in sorted(shots, key=lambda x: x['timestamp'] or ''):
      print(f"    - {shot['timestamp'][:10] if shot['timestamp'] else 'unknown'}: {shot['doseMg']}mg")
  \<close>
  A sort key that is not a string is a timestamp that is true and not a string: if
  \<^verbatim>\<open>sorted\<close> does not raise TypeError on it, slicing it for its line does.
\<close>

definition shot_key :: "'f builtins \<Rightarrow> 'f pydict \<Rightarrow> 'f pyval" where
  "shot_key B shot = py_or B (dict_get shot ''timestamp'' PNone) (PStr [])"

definition shot_line :: "'f builtins \<Rightarrow> 'f pydict \<Rightarrow> string" where
  "shot_line B shot =
     ''    - '' @ (case date_or_unknown B (dict_get shot ''timestamp'' PNone) of
                     Inl e \<Rightarrow> [] | Inr day \<Rightarrow> day)
       @ '': '' @ py_str B (dict_get shot ''doseMg'' PNone) @ ''mg''"

definition print_shots :: "'f builtins \<Rightarrow> 'f pydict list \<Rightarrow> error + string list" where
  "print_shots B shots =
     (if list_all (\<lambda>s. isinstance_str (shot_key B s)) shots
      then Inr (map (shot_line B) (sort_key (\<lambda>s. py_str B (shot_key B s)) shots))
      else Inl TypeError)"

text \<open>
  \<^verbatim>\<open>
  for vial_id, shots in sorted(vial_shots.items(), key=lambda x: str(x[0])):
      total_mg = sum(s['doseMg'] or 0 for s in shots)
      is_dry_stock = any(ds in str(vial_id) for ds in DRY_STOCK_VIALS)
      warning = " [WARNING] SHOULD NOT HAVE SHOTS!" if is_dry_stock else ""
      print(f"  {vial_id}: {len(shots)} shots, {total_mg}mg total{warning}")
      ... the shots ...
  \<close>
\<close>

fun print_vials ::
  "'f builtins \<Rightarrow> ('f pyval \<times> 'f pydict list) list \<Rightarrow> error + string list" where
  "print_vials B [] = Inr []"
| "print_vials B ((vial_id, shots) # rest) =
     (case sum_doses B (PInt 0) shots of
        Inl e \<Rightarrow> Inl e
      | Inr total_mg \<Rightarrow>
          (let is_dry_stock = list_ex (\<lambda>ds. str_contains ds (py_str B vial_id)) DRY_STOCK_VIALS;
               warning = (if is_dry_stock then '' [WARNING] SHOULD NOT HAVE SHOTS!'' else [])
           in case print_shots B shots of
                Inl e \<Rightarrow> Inl e
              | Inr lines \<Rightarrow>
                  (case print_vials B rest of
                     Inl e \<Rightarrow> Inl e
                   | Inr others \<Rightarrow>
                       Inr ((''  '' @ py_str B vial_id @ '': ''
                               @ py_str B (PInt (int (length shots))) @ '' shots, ''
                               @ py_str B total_mg @ ''mg total'' @ warning) # lines @ others))))"

definition current_distribution :: "'f builtins \<Rightarrow> 'f pydict list \<Rightarrow> error + string list" where
  "current_distribution B injections =
     (case group_shots B injections [] of
        Inl e \<Rightarrow> Inl e
      | Inr vial_shots \<Rightarrow> print_vials B (sort_key (\<lambda>(k, shots). py_str B k) vial_shots))"

text \<open>
  The expected distribution (lines 230 to 240).
  \<^verbatim>\<open>
  expected = {}
  for inj in injections:
      timestamp = inj.get('timestamp', '')
      vial = get_correct_vial_for_date(timestamp)
      if vial not in expected:
          expected[vial] = {'count': 0, 'mg': 0}
      expected[vial]['count'] += 1
      expected[vial]['mg'] += inj.get('doseMg') or 0
  for vial, stats in sorted(expected.items()):
      print(f"  {vial}: {stats['count']} shots, {stats['mg']}mg total")
  \<close>
  The keys of \<^verbatim>\<open>expected\<close> are results of the policy: strings and \<^verbatim>\<open>None\<close>. \<^verbatim>\<open>sorted\<close>
  compares the items as tuples, that is by their keys, which are distinct; comparing
  \<^verbatim>\<open>None\<close> with a string raises TypeError, and one item alone is compared with nothing.
\<close>

fun tally ::
  "'f builtins \<Rightarrow> 'f pydict list \<Rightarrow> ('f pyval \<times> int \<times> 'f pyval) list \<Rightarrow>
   error + ('f pyval \<times> int \<times> 'f pyval) list" where
  "tally B [] expected = Inr expected"
| "tally B (injection # rest) expected =
     (case get_correct_vial_for_date B (dict_get injection ''timestamp'' (PStr [])) of
        Inl e \<Rightarrow> Inl e
      | Inr vial \<Rightarrow>
          (case (case map_of expected vial of None \<Rightarrow> (0, PInt 0) | Some stats \<Rightarrow> stats) of
             (count, mg) \<Rightarrow>
               (case add B mg (py_or B (dict_get injection ''doseMg'' PNone) (PInt 0)) of
                  Inl e \<Rightarrow> Inl e
                | Inr mg' \<Rightarrow> tally B rest (AList.update vial (count + 1, mg') expected))))"

definition sorted_items :: "'f builtins \<Rightarrow> ('f pyval \<times> 'a) list \<Rightarrow> error + ('f pyval \<times> 'a) list" where
  "sorted_items B items =
     (if length items \<le> 1 then Inr items
      else if list_all (\<lambda>(k, v). isinstance_str k) items
      then Inr (sort_key (\<lambda>(k, v). py_str B k) items)
      else Inl TypeError)"

definition expected_line :: "'f builtins \<Rightarrow> 'f pyval \<times> int \<times> 'f pyval \<Rightarrow> string" where
  "expected_line B item =
     (case item of (vial, count, mg) \<Rightarrow>
        ''  '' @ py_str B vial @ '': '' @ py_str B (PInt count) @ '' shots, ''
          @ py_str B mg @ ''mg total'')"

definition expected_distribution :: "'f builtins \<Rightarrow> 'f pydict list \<Rightarrow> error + string list" where
  "expected_distribution B injections =
     (case tally B injections [] of
        Inl e \<Rightarrow> Inl e
      | Inr expected \<Rightarrow>
          (case sorted_items B expected of
             Inl e \<Rightarrow> Inl e
           | Inr items \<Rightarrow> Inr (map (expected_line B) items)))"

section \<open>The record store\<close>

text \<open>
  The table is the list of its items in the order a scan returns them. Its key attributes
  \<^verbatim>\<open>PK\<close> and \<^verbatim>\<open>SK\<close> are strings, and no two items have the same key. The client also
  keeps the requests of every \<^verbatim>\<open>update_item\<close> call made so far: the keys \<^verbatim>\<open>PK\<close> and \<^verbatim>\<open>SK\<close>
  and the values of \<^verbatim>\<open>:vialId\<close> and \<^verbatim>\<open>:updatedAt\<close>.
\<close>

type_synonym 'f request = "'f pydict \<times> 'f pydict \<times> 'f pydict \<times> 'f pydict"

record 'f dynamodb =
  items :: "'f raw_item list"
  update_calls :: "'f request list"

text \<open>
  What is outside the program: the clock, and whether the store refuses an update.
  \<open>utcnow n\<close> is \<^verbatim>\<open>datetime.utcnow().isoformat()\<close> at the update after \<open>n\<close> earlier ones, and
  \<open>failure n\<close> is the text of the exception that update raises, if it raises.
\<close>

record env =
  utcnow :: "nat \<Rightarrow> string"
  failure :: "nat \<Rightarrow> string option"

text \<open>
  \<^verbatim>\<open>scan_all_items\<close> collects the pages of a scan filtered by \<^verbatim>\<open>entityType = :type\<close> until
  there is no \<^verbatim>\<open>LastEvaluatedKey\<close>: the items of the table with this entity type. A scan
  that fails is not modelled.
\<close>

definition scan_all_items :: "'f dynamodb \<Rightarrow> string \<Rightarrow> 'f raw_item list" where
  "scan_all_items dynamodb entity_type =
     filter (\<lambda>item. map_of item ''entityType'' = Some [(''S'', PStr entity_type)])
       (items dynamodb)"

text \<open>
  The effect of \<^verbatim>\<open>SET vialId = :vialId, updatedAt = :updatedAt\<close> on the item with the given
  key; the store creates the item when there is none.
\<close>

definition set_attributes :: "'f pydict \<Rightarrow> 'f pydict \<Rightarrow> 'f raw_item \<Rightarrow> 'f raw_item" where
  "set_attributes vial updated item =
     AList.update ''updatedAt'' updated (AList.update ''vialId'' vial item)"

fun put_update :: "'f raw_item list \<Rightarrow> 'f request \<Rightarrow> 'f raw_item list" where
  "put_update [] (pk, sk, vial, updated) =
     [[(''PK'', pk), (''SK'', sk), (''vialId'', vial), (''updatedAt'', updated)]]"
| "put_update (item # rest) (pk, sk, vial, updated) =
     (if map_of item ''PK'' = Some pk \<and> map_of item ''SK'' = Some sk
      then set_attributes vial updated item # rest
      else item # put_update rest (pk, sk, vial, updated))"

text \<open>
  \<^verbatim>\<open>dynamodb.update_item(...)\<close>: the request is recorded; the call raises, and writes
  nothing, when the environment says so.
\<close>

definition update_item :: "env \<Rightarrow> 'f dynamodb \<Rightarrow> 'f request \<Rightarrow> string option \<times> 'f dynamodb" where
  "update_item E dynamodb request =
     (let n = length (update_calls dynamodb);
          called = dynamodb\<lparr>update_calls := update_calls dynamodb @ [request]\<rparr>
      in case failure E n of
           Some message \<Rightarrow> (Some message, called)
         | None \<Rightarrow> (None, called\<lparr>items := put_update (items dynamodb) request\<rparr>))"

section \<open>Apply executor\<close>

text \<open>
  \<^verbatim>\<open>
  success_count = 0
  error_count = 0
  for change in changes:
      print(f"  Updating {change['SK'][:40]}...")
      try:
          dynamodb.update_item(
              TableName=args.table,
              Key={'PK': format_dynamo_value(change['PK']),
                   'SK': format_dynamo_value(change['SK'])},
              UpdateExpression='SET vialId = :vialId, updatedAt = :updatedAt',
              ExpressionAttributeValues={
                  ':vialId': format_dynamo_value(change['correct_vial']),
                  ':updatedAt': format_dynamo_value(datetime.utcnow().isoformat() + 'Z')})
          print(f"    [OK] Updated to {change['correct_vial']}")
          success_count += 1
      except Exception as e:
          print(f"    [FAIL] Error: {e}")
          error_count += 1
  \<close>
  The first \<^verbatim>\<open>print\<close> is outside the \<^verbatim>\<open>try\<close>: a sort key that cannot be sliced ends the
  loop with the exception. The store, the two counters and the lines printed are the state
  of the loop.
\<close>

definition request_of :: "'f builtins \<Rightarrow> string \<Rightarrow> 'f change \<Rightarrow> 'f request" where
  "request_of B now change =
     (format_dynamo_value B (PK change),
      format_dynamo_value B (SK change),
      format_dynamo_value B (correct_vial change),
      format_dynamo_value B (PStr (now @ ''Z'')))"

fun apply_changes ::
  "'f builtins \<Rightarrow> env \<Rightarrow> 'f change list \<Rightarrow> 'f dynamodb \<Rightarrow> nat \<Rightarrow> nat \<Rightarrow> string list \<Rightarrow>
   'f dynamodb \<times> (error + nat \<times> nat \<times> string list)" where
  "apply_changes B E [] dynamodb success_count error_count out =
     (dynamodb, Inr (success_count, error_count, out))"
| "apply_changes B E (change # rest) dynamodb success_count error_count out =
     (case str_prefix 40 (SK change) of
        Inl e \<Rightarrow> (dynamodb, Inl e)
      | Inr sk40 \<Rightarrow>
          (let updating = ''  Updating '' @ sk40 @ ''...'';
               now = utcnow E (length (update_calls dynamodb))
           in case update_item E dynamodb (request_of B now change) of
                (None, dynamodb') \<Rightarrow>
                  apply_changes B E rest dynamodb' (success_count + 1) error_count
                    (out @ [updating, ''    [OK] Updated to '' @ py_str B (correct_vial change)])
              | (Some message, dynamodb') \<Rightarrow>
                  apply_changes B E rest dynamodb' success_count (error_count + 1)
                    (out @ [updating, ''    [FAIL] Error: '' @ message])))"

section \<open>The run\<close>

record args =
  profile :: string
  region :: string
  table :: string
  dry_run :: bool

fun parse_items :: "'f builtins \<Rightarrow> 'f raw_item list \<Rightarrow> error + 'f pydict list" where
  "parse_items B [] = Inr []"
| "parse_items B (item # rest) =
     (case parse_item B item of
        Inl e \<Rightarrow> Inl e
      | Inr p \<Rightarrow> (case parse_items B rest of
                    Inl e \<Rightarrow> Inl e
                  | Inr ps \<Rightarrow> Inr (p # ps)))"

definition rule60 :: string where
  "rule60 = CHR 0x0A # replicate 60 (CHR ''='')"

definition line60 :: string where
  "line60 = replicate 60 (CHR ''='')"

text \<open>
  What \<^verbatim>\<open>main\<close> has printed when the change-set is computed, and the lines from
  \<^verbatim>\<open>Total changes\<close> to the end of the expected distribution.
\<close>

definition printed_plan ::
  "'f builtins \<Rightarrow> args \<Rightarrow> 'f pydict list \<Rightarrow> 'f pydict list \<Rightarrow> string list \<Rightarrow> string list \<Rightarrow>
   string list" where
  "printed_plan B a injections vials current needed =
     [''Connecting to DynamoDB (profile: '' @ profile a @ '', region: '' @ region a @ '')...'',
      ''Fetching all injections...'',
      ''  Found '' @ py_str B (PInt (int (length injections))) @ '' injections'',
      ''Fetching all vials...'',
      ''  Found '' @ py_str B (PInt (int (length vials))) @ '' vials'',
      rule60, ''Current vial distribution:'', line60]
     @ current
     @ [rule60, ''Changes needed:'', line60]
     @ needed"

definition printed_expected :: "'f builtins \<Rightarrow> 'f change list \<Rightarrow> string list \<Rightarrow> string list" where
  "printed_expected B changes expected =
     [CHR 0x0A # ''Total changes: '' @ py_str B (PInt (int (length changes))),
      rule60, ''Expected distribution after fix:'', line60]
     @ expected"

text \<open>
  \<^verbatim>\<open>main\<close>, from the client it has connected: the store as the run leaves it, and either
  the exception that ended the run or the lines it printed. \<open>a\<close> holds the parsed command
  line.
\<close>

definition main ::
  "'f builtins \<Rightarrow> env \<Rightarrow> args \<Rightarrow> 'f dynamodb \<Rightarrow> 'f dynamodb \<times> (error + string list)" where
  "main B E a dynamodb =
     (case parse_items B (scan_all_items dynamodb ''INJECTION'') of
        Inl e \<Rightarrow> (dynamodb, Inl e)
      | Inr injections \<Rightarrow>
     (case parse_items B (scan_all_items dynamodb ''VIAL'') of
        Inl e \<Rightarrow> (dynamodb, Inl e)
      | Inr vials \<Rightarrow>
     (case current_distribution B injections of
        Inl e \<Rightarrow> (dynamodb, Inl e)
      | Inr current \<Rightarrow>
     (case calculate_changes B injections of
        Inl e \<Rightarrow> (dynamodb, Inl e)
      | Inr (changes, needed) \<Rightarrow>
     (if changes = []
      then (dynamodb, Inr (printed_plan B a injections vials current needed @
                           [''  No changes needed - distribution is already correct!'']))
      else
     (case expected_distribution B injections of
        Inl e \<Rightarrow> (dynamodb, Inl e)
      | Inr expected \<Rightarrow>
     (if dry_run a
      then (dynamodb, Inr (printed_plan B a injections vials current needed @
                           printed_expected B changes expected @
                           [CHR 0x0A # ''[DRY RUN] No changes applied'',
                            ''Run without --dry-run to apply changes'']))
      else
     (case apply_changes B E changes dynamodb 0 0
             (printed_plan B a injections vials current needed @
              printed_expected B changes expected @
              [CHR 0x0A # ''Applying changes...'']) of
        (dynamodb', Inl e) \<Rightarrow> (dynamodb', Inl e)
      | (dynamodb', Inr (success_count, error_count, out3)) \<Rightarrow>
          (dynamodb', Inr (out3 @ [CHR 0x0A # ''Done! Updated ''
                                     @ py_str B (PInt (int success_count)) @ '' injections, ''
                                     @ py_str B (PInt (int error_count)) @ '' errors'']))))))))))"

section \<open>Whole numbers as an interpretation of the builtins\<close>

text \<open>
  To evaluate the definitions on concrete stores, the builtins are interpreted over the
  numbers with a whole value: the float of value \<open>x\<close> is \<open>x\<close> and prints as \<^verbatim>\<open>x.0\<close>. Strings
  that denote other numbers are outside this interpretation, and a dictionary, which none
  of the evaluations below prints, is abbreviated.
\<close>

fun show_nat :: "nat \<Rightarrow> string" where
  "show_nat n =
     (if n < 10 then [''0123456789'' ! n]
      else show_nat (n div 10) @ [''0123456789'' ! (n mod 10)])"

definition show_int :: "int \<Rightarrow> string" where
  "show_int i = (if i < 0 then CHR ''-'' # show_nat (nat (- i)) else show_nat (nat i))"

fun read_nat :: "string \<Rightarrow> nat \<Rightarrow> nat option" where
  "read_nat [] n = Some n"
| "read_nat (c # cs) n =
     (if CHR ''0'' \<le> c \<and> c \<le> CHR ''9''
      then read_nat cs (10 * n + (of_char c - 48))
      else None)"

definition read_whole :: "string \<Rightarrow> int option" where
  "read_whole s =
     (let t = (if drop (length s - 2) s = ''.0'' then take (length s - 2) s else s)
      in if t = [] then None else map_option int (read_nat t 0))"

fun whole_of :: "int pyval \<Rightarrow> int option" where
  "whole_of (PInt i) = Some i"
| "whole_of (PBool b) = Some (if b then 1 else 0)"
| "whole_of (PFloat x) = Some x"
| "whole_of (PDecimal x) = Some x"
| "whole_of v = None"

fun whole_float :: "int pyval \<Rightarrow> error + int" where
  "whole_float (PStr s) = (case read_whole s of None \<Rightarrow> Inl ValueError | Some x \<Rightarrow> Inr x)"
| "whole_float (PInt i) = Inr i"
| "whole_float (PBool b) = Inr (if b then 1 else 0)"
| "whole_float (PFloat x) = Inr x"
| "whole_float (PDecimal x) = Inr x"
| "whole_float v = Inl TypeError"

fun whole_str :: "int pyval \<Rightarrow> string" where
  "whole_str (PInt i) = show_int i"
| "whole_str (PFloat x) = show_int x @ ''.0''"
| "whole_str (PDecimal x) = show_int x"
| "whole_str v = ''{...}''"

fun is_float :: "'f pyval \<Rightarrow> bool" where
  "is_float (PFloat x) = True"
| "is_float v = False"

fun is_decimal :: "'f pyval \<Rightarrow> bool" where
  "is_decimal (PDecimal x) = True"
| "is_decimal v = False"

definition whole_add :: "int pyval \<Rightarrow> int pyval \<Rightarrow> error + int pyval" where
  "whole_add a b =
     (case (a, b) of
        (PStr s, PStr t) \<Rightarrow> Inr (PStr (s @ t))
      | _ \<Rightarrow>
        (case (whole_of a, whole_of b) of
           (Some x, Some y) \<Rightarrow>
             if is_float a \<or> is_float b
             then (if is_decimal a \<or> is_decimal b then Inl TypeError else Inr (PFloat (x + y)))
             else if is_decimal a \<or> is_decimal b then Inr (PDecimal (x + y))
             else Inr (PInt (x + y))
         | _ \<Rightarrow> Inl TypeError))"

definition whole :: "int builtins" where
  "whole = \<lparr>float_of = whole_float, str_other = whole_str,
            float_nonzero = (\<lambda>x. x \<noteq> 0), decimal_nonzero = (\<lambda>x. x \<noteq> 0),
            add = whole_add, num_eq = (\<lambda>a b. whole_of a = whole_of b)\<rparr>"

section \<open>Whole numbers and a float that is not a number\<close>








section \<open>Sample data\<close>

text \<open>
  A small table on which the definitions are evaluated: three injections of one user and
  one vial. The first injection is recorded on a dry-stock vial, the second on no vial,
  the third on the vial of its date.
\<close>

definition injection_item :: "string \<Rightarrow> int raw_item \<Rightarrow> int raw_item" where
  "injection_item sk attributes =
     [(''PK'', [(''S'', PStr ''USER#1'')]), (''SK'', [(''S'', PStr sk)]),
      (''entityType'', [(''S'', PStr ''INJECTION'')])] @ attributes"

definition sample_store :: "int dynamodb" where
  "sample_store = \<lparr>items =
     [injection_item ''INJ#a'' [(''timestamp'', [(''S'', PStr ''2025-11-05T09:00'')]),
                              (''doseMg'', [(''N'', PStr ''4'')]),
                              (''vialId'', [(''S'', PStr ''vial_20241029_3'')])],
      injection_item ''INJ#b'' [(''timestamp'', [(''S'', PStr ''2025-09-20T08:00'')]),
                              (''doseMg'', [(''N'', PStr ''2'')]),
                              (''vialId'', [(''NULL'', PBool True)])],
      injection_item ''INJ#c'' [(''timestamp'', [(''S'', PStr ''2025-08-10T08:00'')]),
                              (''doseMg'', [(''N'', PStr ''2'')]),
                              (''vialId'', [(''S'', PStr ''vial_20240805_1'')])],
      [(''PK'', [(''S'', PStr ''USER#1'')]), (''SK'', [(''S'', PStr ''VIAL#1'')]),
       (''entityType'', [(''S'', PStr ''VIAL'')])]],
     update_calls = []\<rparr>"

definition sample_injection :: "int pydict" where
  "sample_injection =
     [(''PK'', PStr ''USER#1''), (''SK'', PStr ''INJ#a''), (''entityType'', PStr ''INJECTION''),
      (''timestamp'', PStr ''2025-11-05T09:00''), (''doseMg'', PFloat 4),
      (''vialId'', PStr ''vial_20241029_3'')]"

definition sample_changes :: "int change list" where
  "sample_changes =
     [\<lparr>PK = PStr ''USER#1'', SK = PStr ''INJ#a'', timestamp = PStr ''2025-11-05T09:00'',
       doseMg = PFloat 4, current_vial = PStr ''vial_20241029_3'',
       correct_vial = PStr ''vial_20241029_1''\<rparr>,
      \<lparr>PK = PStr ''USER#1'', SK = PStr ''INJ#b'', timestamp = PStr ''2025-09-20T08:00'',
       doseMg = PFloat 2, current_vial = PStr ''NULL'',
       correct_vial = PStr ''vial_20240805_2''\<rparr>]"

text \<open>Two environments: every update succeeds; the first update is refused.\<close>

definition sample_env :: env where
  "sample_env = \<lparr>utcnow = (\<lambda>n. ''2025-11-10T12:00:00''), failure = (\<lambda>n. None)\<rparr>"

definition failing_env :: env where
  "failing_env = \<lparr>utcnow = (\<lambda>n. ''2025-11-10T12:00:00''),
                   failure = (\<lambda>n. if n = 0 then Some ''ProvisionedThroughputExceededException'' else None)\<rparr>"

definition live_args :: args where
  "live_args = \<lparr>profile = ''reta-admin'', region = ''eu-west-1'', table = ''reta-data'',
                 dry_run = False\<rparr>"

definition dry_args :: args where
  "dry_args = \<lparr>profile = ''reta-admin'', region = ''eu-west-1'', table = ''reta-data'',
                dry_run = True\<rparr>"

text \<open>
  Three more tables: one whose only injection is on the vial of its date, one whose only
  injection has neither a timestamp nor a vial, and one with an injection on a dry-stock
  vial beside an injection without a timestamp.
\<close>

definition settled_store :: "int dynamodb" where
  "settled_store = \<lparr>items =
     [injection_item ''INJ#c'' [(''timestamp'', [(''S'', PStr ''2025-08-10T08:00'')]),
                              (''doseMg'', [(''N'', PStr ''2'')]),
                              (''vialId'', [(''S'', PStr ''vial_20240805_1'')])]],
     update_calls = []\<rparr>"

definition undated_store :: "int dynamodb" where
  "undated_store = \<lparr>items =
     [injection_item ''INJ#d'' [(''doseMg'', [(''N'', PStr ''2'')])]],
     update_calls = []\<rparr>"

definition partly_dated_store :: "int dynamodb" where
  "partly_dated_store = \<lparr>items =
     [injection_item ''INJ#a'' [(''timestamp'', [(''S'', PStr ''2025-11-05T09:00'')]),
                              (''doseMg'', [(''N'', PStr ''4'')]),
                              (''vialId'', [(''S'', PStr ''vial_20241029_3'')])],
      injection_item ''INJ#d'' [(''doseMg'', [(''N'', PStr ''2'')])]],
     update_calls = []\<rparr>"

text \<open>
  The injections of the sample table as \<^verbatim>\<open>parse_item\<close> reads them, the same injections
  after the two changes the planner computes for them, and the table after the two
  updates, each made at the time the sample clock shows.
\<close>

definition sample_injections :: "int pydict list" where
  "sample_injections =
     [sample_injection,
      [(''PK'', PStr ''USER#1''), (''SK'', PStr ''INJ#b''), (''entityType'', PStr ''INJECTION''),
       (''timestamp'', PStr ''2025-09-20T08:00''), (''doseMg'', PFloat 2), (''vialId'', PNone)],
      [(''PK'', PStr ''USER#1''), (''SK'', PStr ''INJ#c''), (''entityType'', PStr ''INJECTION''),
       (''timestamp'', PStr ''2025-08-10T08:00''), (''doseMg'', PFloat 2),
       (''vialId'', PStr ''vial_20240805_1'')]]"

definition sample_applied :: "int pydict list" where
  "sample_applied =
     [[(''PK'', PStr ''USER#1''), (''SK'', PStr ''INJ#a''), (''entityType'', PStr ''INJECTION''),
       (''timestamp'', PStr ''2025-11-05T09:00''), (''doseMg'', PFloat 4),
       (''vialId'', PStr ''vial_20241029_1''), (''updatedAt'', PStr ''2025-11-10T12:00:00Z'')],
      [(''PK'', PStr ''USER#1''), (''SK'', PStr ''INJ#b''), (''entityType'', PStr ''INJECTION''),
       (''timestamp'', PStr ''2025-09-20T08:00''), (''doseMg'', PFloat 2),
       (''vialId'', PStr ''vial_20240805_2''), (''updatedAt'', PStr ''2025-11-10T12:00:00Z'')],
      [(''PK'', PStr ''USER#1''), (''SK'', PStr ''INJ#c''), (''entityType'', PStr ''INJECTION''),
       (''timestamp'', PStr ''2025-08-10T08:00''), (''doseMg'', PFloat 2),
       (''vialId'', PStr ''vial_20240805_1'')]]"

definition sample_applied_store :: "int dynamodb" where
  "sample_applied_store = \<lparr>items =
     [injection_item ''INJ#a'' [(''timestamp'', [(''S'', PStr ''2025-11-05T09:00'')]),
                              (''doseMg'', [(''N'', PStr ''4'')]),
                              (''vialId'', [(''S'', PStr ''vial_20241029_1'')]),
                              (''updatedAt'', [(''S'', PStr ''2025-11-10T12:00:00Z'')])],
      injection_item ''INJ#b'' [(''timestamp'', [(''S'', PStr ''2025-09-20T08:00'')]),
                              (''doseMg'', [(''N'', PStr ''2'')]),
                              (''vialId'', [(''S'', PStr ''vial_20240805_2'')]),
                              (''updatedAt'', [(''S'', PStr ''2025-11-10T12:00:00Z'')])],
      injection_item ''INJ#c'' [(''timestamp'', [(''S'', PStr ''2025-08-10T08:00'')]),
                              (''doseMg'', [(''N'', PStr ''2'')]),
                              (''vialId'', [(''S'', PStr ''vial_20240805_1'')])],
      [(''PK'', [(''S'', PStr ''USER#1'')]), (''SK'', [(''S'', PStr ''VIAL#1'')]),
       (''entityType'', [(''S'', PStr ''VIAL'')])]],
     update_calls =
       [([(''S'', PStr ''USER#1'')], [(''S'', PStr ''INJ#a'')],
         [(''S'', PStr ''vial_20241029_1'')], [(''S'', PStr ''2025-11-10T12:00:00Z'')]),
        ([(''S'', PStr ''USER#1'')], [(''S'', PStr ''INJ#b'')],
         [(''S'', PStr ''vial_20240805_2'')], [(''S'', PStr ''2025-11-10T12:00:00Z'')])]\<rparr>"

text \<open>The injection without a timestamp, as \<^verbatim>\<open>parse_item\<close> reads it.\<close>

definition undated_injection :: "int pydict" where
  "undated_injection =
     [(''PK'', PStr ''USER#1''), (''SK'', PStr ''INJ#d''), (''entityType'', PStr ''INJECTION''),
      (''doseMg'', PFloat 2)]"

section \<open>The key discipline of the table\<close>

text \<open>
  The store identifies an item by its key attributes. \<open>well_keyed\<close> says what the store
  guarantees for a table whose key schema has the string attributes \<^verbatim>\<open>PK\<close> and \<^verbatim>\<open>SK\<close>:
  every item has both, each tagged \<^verbatim>\<open>S\<close> with a string, and no two items have the same
  key. \<open>item_after\<close> is what a sequence of successful updates makes of one item.
\<close>

definition raw_key :: "'f raw_item \<Rightarrow> 'f pydict option \<times> 'f pydict option" where
  "raw_key item = (map_of item ''PK'', map_of item ''SK'')"

fun string_value :: "'f pydict \<Rightarrow> string option" where
  "string_value [(t, PStr s)] = (if t = ''S'' then Some s else None)"
| "string_value d = None"

definition string_keyed :: "'f raw_item \<Rightarrow> bool" where
  "string_keyed item =
     (case raw_key item of
        (Some pk, Some sk) \<Rightarrow> string_value pk \<noteq> None \<and> string_value sk \<noteq> None
      | _ \<Rightarrow> False)"

definition well_keyed :: "'f raw_item list \<Rightarrow> bool" where
  "well_keyed table_items =
     (list_all string_keyed table_items \<and> distinct (map raw_key table_items))"

fun update_one :: "'f raw_item \<Rightarrow> 'f request \<Rightarrow> 'f raw_item" where
  "update_one item (pk, sk, vial, updated) =
     (if raw_key item = (Some pk, Some sk) then set_attributes vial updated item else item)"

definition item_after :: "'f request list \<Rightarrow> 'f raw_item \<Rightarrow> 'f raw_item" where
  "item_after requests item = foldl update_one item requests"

text \<open>A request is for an item when it names the item's key; its two values.\<close>

definition matches :: "'f raw_item \<Rightarrow> 'f request \<Rightarrow> bool" where
  "matches item r = (case r of (pk, sk, vial, updated) \<Rightarrow> raw_key item = (Some pk, Some sk))"

definition vial_of :: "'f request \<Rightarrow> 'f pydict" where
  "vial_of r = (case r of (pk, sk, vial, updated) \<Rightarrow> vial)"

definition updated_of :: "'f request \<Rightarrow> 'f pydict" where
  "updated_of r = (case r of (pk, sk, vial, updated) \<Rightarrow> updated)"

section \<open>The change-set applied to the injections\<close>

text \<open>
  The requests of the apply loop for a change-set when \<open>n\<close> updates were made before it:
  the update for the \<open>k\<close>-th change record reads the clock at call \<open>n + k\<close>.
\<close>

definition requests_for :: "'f builtins \<Rightarrow> env \<Rightarrow> nat \<Rightarrow> 'f change list \<Rightarrow> 'f request list" where
  "requests_for B E n changes =
     map (\<lambda>(k, c). request_of B (utcnow E k) c) (zip [n..<n + length changes] changes)"

text \<open>
  The specification's applied change-set, on the parsed injections. This definition
  follows its words, each changed injection's association field set to its change
  record's correct vial, and is compared below with what the apply loop leaves in the
  store: an injection for which the planner makes a change record gets the record's
  correct vial as its \<^verbatim>\<open>vialId\<close> and the time of its update as \<^verbatim>\<open>updatedAt\<close>, the two
  attributes of the update expression, and every other injection is as it was. \<open>n\<close> counts
  the updates made before.
\<close>

definition set_vial :: "'f pyval \<Rightarrow> 'f pyval \<Rightarrow> 'f pydict \<Rightarrow> 'f pydict" where
  "set_vial vial updated injection =
     AList.update ''updatedAt'' updated (AList.update ''vialId'' vial injection)"

fun applied :: "'f builtins \<Rightarrow> env \<Rightarrow> nat \<Rightarrow> 'f pydict list \<Rightarrow> 'f pydict list" where
  "applied B E n [] = []"
| "applied B E n (injection # rest) =
     (case change_for B injection of
        Inr (Some change, line) \<Rightarrow>
          set_vial (correct_vial change) (PStr (utcnow E n @ ''Z'')) injection
            # applied B E (Suc n) rest
      | _ \<Rightarrow> injection # applied B E n rest)"

section \<open>The specification's date-time\<close>

text \<open>
  The specification takes the date portion of a timestamp to be its first 10 characters,
  \<^verbatim>\<open>YYYY-MM-DD\<close>, of fixed width and zero-padded. This definition follows its words and is
  not taken from the source, which never parses a timestamp: a string that does not
  begin with such a date is not a parseable date-time.
\<close>

definition spec_date_time :: "string \<Rightarrow> bool" where
  "spec_date_time s =
     (10 \<le> length s \<and>
      list_all (\<lambda>i. CHR ''0'' \<le> s ! i \<and> s ! i \<le> CHR ''9'') [0, 1, 2, 3, 5, 6, 8, 9] \<and>
      s ! 4 = CHR ''-'' \<and> s ! 7 = CHR ''-'')"

section \<open>Properties of the assignment policy\<close>

lemma boundaries_ordered: "''2025-09-13'' < ''2025-10-29''"
  by simp

lemma policy_cases:
  "get_correct_vial_for_date B v = Inr cor \<Longrightarrow>
   cor = PNone \<or> cor = PStr ''vial_20240805_1'' \<or> cor = PStr ''vial_20240805_2'' \<or>
   cor = PStr ''vial_20241029_1''"
  by (auto simp: get_correct_vial_for_date_def split: if_splits sum.splits)

lemma active_not_dry:
  "cor = PStr ''vial_20240805_1'' \<or> cor = PStr ''vial_20240805_2'' \<or>
   cor = PStr ''vial_20241029_1'' \<Longrightarrow>
   \<not> list_ex (\<lambda>ds. str_contains ds (py_str B cor)) DRY_STOCK_VIALS \<and>
   cor \<notin> PStr ` set DRY_STOCK_VIALS \<and> py_truthy B cor"
  by (auto simp: DRY_STOCK_VIALS_def)

lemma policy_truthy:
  "get_correct_vial_for_date B v = Inr cor \<Longrightarrow> py_truthy B cor = (cor \<noteq> PNone)"
  by (auto dest!: policy_cases)

text \<open>
  C1. For a timestamp \<open>t\<close> that is not empty the policy compares the first 10 characters
  of \<open>t\<close> with the two boundaries in lexicographic order: below \<^verbatim>\<open>2025-09-13\<close> the result is
  \<^verbatim>\<open>vial_20240805_1\<close>, from \<^verbatim>\<open>2025-09-13\<close> (included) to \<^verbatim>\<open>2025-10-29\<close> (excluded) it is
  \<^verbatim>\<open>vial_20240805_2\<close>, and from \<^verbatim>\<open>2025-10-29\<close> on it is \<^verbatim>\<open>vial_20241029_1\<close>. The three
  timestamps of the specification's example resolve to the first, second and third vial.
\<close>

theorem policy_half_open_intervals:
  "t \<noteq> [] \<Longrightarrow>
     (take 10 t < ''2025-09-13'' \<longrightarrow>
        get_correct_vial_for_date B (PStr t) = Inr (PStr ''vial_20240805_1'')) \<and>
     (''2025-09-13'' \<le> take 10 t \<and> take 10 t < ''2025-10-29'' \<longrightarrow>
        get_correct_vial_for_date B (PStr t) = Inr (PStr ''vial_20240805_2'')) \<and>
     (''2025-10-29'' \<le> take 10 t \<longrightarrow>
        get_correct_vial_for_date B (PStr t) = Inr (PStr ''vial_20241029_1'')) \<and>
     get_correct_vial_for_date B (PStr ''2025-09-12T08:00'') = Inr (PStr ''vial_20240805_1'') \<and>
     get_correct_vial_for_date B (PStr ''2025-09-13T00:00'') = Inr (PStr ''vial_20240805_2'') \<and>
     get_correct_vial_for_date B (PStr ''2025-11-01T12:00'') = Inr (PStr ''vial_20241029_1'')"
proof -
  assume t: "t \<noteq> []"
  have third: "''2025-10-29'' \<le> take 10 t \<Longrightarrow> \<not> take 10 t < ''2025-09-13''"
    using boundaries_ordered by (meson leD less_le_trans less_imp_le)
  have examples:
    "get_correct_vial_for_date B (PStr ''2025-09-12T08:00'') = Inr (PStr ''vial_20240805_1'')"
    "get_correct_vial_for_date B (PStr ''2025-09-13T00:00'') = Inr (PStr ''vial_20240805_2'')"
    "get_correct_vial_for_date B (PStr ''2025-11-01T12:00'') = Inr (PStr ''vial_20241029_1'')"
    by (simp_all add: get_correct_vial_for_date_def)
  from t third examples show ?thesis
    by (auto simp: get_correct_vial_for_date_def not_less)
qed

theorem policy_half_open_intervals_witness:
  "''2025-09-20T10:00'' \<noteq> [] \<and> ''2025-09-13'' \<le> take 10 ''2025-09-20T10:00'' \<and>
   take 10 ''2025-09-20T10:00'' < ''2025-10-29'' \<and>
   get_correct_vial_for_date whole (PStr ''2025-09-20T10:00'') = Inr (PStr ''vial_20240805_2'') \<and>
   get_correct_vial_for_date whole (PStr ''2025-09-13'') = Inr (PStr ''vial_20240805_2'') \<and>
   get_correct_vial_for_date whole (PStr ''2025-10-29'') = Inr (PStr ''vial_20241029_1'')"
  using policy_half_open_intervals [of "''2025-09-20T10:00''" whole]
    policy_half_open_intervals [of "''2025-09-13''" whole]
    policy_half_open_intervals [of "''2025-10-29''" whole]
  by simp

text \<open>
  C2. Whatever its argument, the policy does not return one of the dry-stock vials
  \<^verbatim>\<open>vial_20241029_2\<close>, \<^verbatim>\<open>vial_20241029_3\<close>, \<^verbatim>\<open>vial_20241029_4\<close>: it raises, or returns
  \<^verbatim>\<open>None\<close> or one of \<^verbatim>\<open>vial_20240805_1\<close>, \<^verbatim>\<open>vial_20240805_2\<close>, \<^verbatim>\<open>vial_20241029_1\<close>; on a
  string it does not raise.
\<close>

theorem policy_never_dry_stock:
  "get_correct_vial_for_date B v \<notin> Inr ` PStr ` set DRY_STOCK_VIALS \<and>
   get_correct_vial_for_date B v \<in>
     {Inl TypeError, Inr PNone, Inr (PStr ''vial_20240805_1''), Inr (PStr ''vial_20240805_2''),
      Inr (PStr ''vial_20241029_1'')} \<and>
   get_correct_vial_for_date B (PStr s) \<in>
     {Inr PNone, Inr (PStr ''vial_20240805_1''), Inr (PStr ''vial_20240805_2''),
      Inr (PStr ''vial_20241029_1'')}"
  by (cases v) (auto simp: get_correct_vial_for_date_def DRY_STOCK_VIALS_def)

section \<open>Properties of the marshalling\<close>

text \<open>
  C9, as the code has it. A tagged value whose tag is none of \<^verbatim>\<open>S\<close>, \<^verbatim>\<open>N\<close>, \<^verbatim>\<open>NULL\<close>, \<^verbatim>\<open>BOOL\<close>
  is returned as it is, the dictionary with its tag, and parsing it does not fail; so is
  any dictionary without these four keys. For \<^verbatim>\<open>S\<close> and \<^verbatim>\<open>BOOL\<close> the result is the payload,
  for \<^verbatim>\<open>N\<close> it is \<^verbatim>\<open>float\<close> of the payload (an exception if \<^verbatim>\<open>float\<close> raises one), for
  \<^verbatim>\<open>NULL\<close> it is \<^verbatim>\<open>None\<close>.
\<close>

theorem parse_dynamo_value_tags:
  "(tag \<notin> {''S'', ''N'', ''NULL'', ''BOOL''} \<longrightarrow>
      parse_dynamo_value B [(tag, payload)] = Inr (PDict [(tag, payload)])) \<and>
   (map_of value ''S'' = None \<and> map_of value ''N'' = None \<and> map_of value ''NULL'' = None \<and>
    map_of value ''BOOL'' = None \<longrightarrow> parse_dynamo_value B value = Inr (PDict value)) \<and>
   parse_dynamo_value B [(''S'', payload)] = Inr payload \<and>
   parse_dynamo_value B [(''N'', payload)] =
     (case float_of B payload of Inl e \<Rightarrow> Inl e | Inr x \<Rightarrow> Inr (PFloat x)) \<and>
   parse_dynamo_value B [(''NULL'', payload)] = Inr PNone \<and>
   parse_dynamo_value B [(''BOOL'', payload)] = Inr payload"
  by (simp add: parse_dynamo_value_def)

theorem parse_dynamo_value_tags_witness:
  "''M'' \<notin> {''S'', ''N'', ''NULL'', ''BOOL''} \<and>
   parse_dynamo_value whole [(''M'', PDict [])] = Inr (PDict [(''M'', PDict [])]) \<and>
   map_of [(''B'', PStr ''AQID''), (''x'', PNone)] ''S'' = (None :: int pyval option) \<and>
   parse_dynamo_value whole [(''B'', PStr ''AQID''), (''x'', PNone)] =
     Inr (PDict [(''B'', PStr ''AQID''), (''x'', PNone)])"
  using parse_dynamo_value_tags [of "''M''" whole "PDict []" "[(''B'', PStr ''AQID''), (''x'', PNone)]"]
  by simp

text \<open>
  C9 as stated fails: the value tagged \<^verbatim>\<open>M\<close> comes back as a dictionary, not as a string.
\<close>

theorem unknown_tag_is_not_a_string:
  "parse_dynamo_value whole [(''M'', PDict [])] = Inr (PDict [(''M'', PDict [])]) \<and>
   \<not> isinstance_str (PDict [(''M'', PDict [])] :: int pyval)"
  by (simp add: parse_dynamo_value_def)




section \<open>Properties of the planner\<close>

lemma needs_change_iff:
  assumes "get_correct_vial_for_date B v = Inr cor" "cor \<noteq> PNone"
  shows "needs_change B cur cor \<longleftrightarrow> (cur = PNone \<or> cur \<in> PStr ` set DRY_STOCK_VIALS \<or> cur \<noteq> cor)"
proof -
  from policy_cases [OF assms(1)] assms(2)
  have a: "cor = PStr ''vial_20240805_1'' \<or> cor = PStr ''vial_20240805_2'' \<or> cor = PStr ''vial_20241029_1''"
    by simp
  note nd = active_not_dry [OF a, of B]
  show ?thesis
  proof (cases "cur = cor")
    case True
    with nd a show ?thesis by (auto simp: needs_change_def)
  next
    case False
    then show ?thesis by (simp add: needs_change_def)
  qed
qed

lemma calculate_changes_map_filter:
  "calculate_changes B injections = Inr (changes, out) \<Longrightarrow>
   changes = List.map_filter (\<lambda>i. case change_for B i of Inl e \<Rightarrow> None | Inr (c, out) \<Rightarrow> c) injections"
proof (induction injections arbitrary: changes out)
  case Nil
  then show ?case by (simp add: List.map_filter_simps)
next
  case (Cons a injections)
  then show ?case
    by (auto simp: List.map_filter_simps split: sum.splits option.splits prod.splits)
qed


lemma calculate_changes_append:
  "calculate_changes B (xs @ ys) =
     (case calculate_changes B xs of
        Inl e \<Rightarrow> Inl e
      | Inr (c1, o1) \<Rightarrow>
          (case calculate_changes B ys of
             Inl e \<Rightarrow> Inl e
           | Inr (c2, o2) \<Rightarrow> Inr (c1 @ c2, o1 @ o2)))"
  by (induction xs) (auto split: sum.splits option.splits prod.splits)

lemma policy_some_date:
  "get_correct_vial_for_date B v = Inr cor \<Longrightarrow> cor \<noteq> PNone \<Longrightarrow> \<exists>day. date_or_unknown B v = Inr day"
  by (cases v) (auto simp: get_correct_vial_for_date_def date_or_unknown_def split: if_splits)

text \<open>
  C3. Take an injection with its keys \<^verbatim>\<open>PK\<close> and \<^verbatim>\<open>SK\<close> whose timestamp the policy maps to a
  vial \<open>cor\<close>, not to \<^verbatim>\<open>None\<close>, and let \<open>cur\<close> be its current association. The planner
  sets \<^verbatim>\<open>needs_change\<close> exactly when \<open>cur\<close> is null, or is one of the dry-stock vials, or
  differs from \<open>cor\<close>; in that case the body of the loop emits the change record of the
  injection, with \<open>cor\<close> as its correct vial, and otherwise it emits none; so the change-set
  of a list of injections holds this record at the place of the injection exactly in
  that case. An injection on a dry-stock vial and dated \<^verbatim>\<open>2025-11-05T09:00\<close> needs a change,
  to \<^verbatim>\<open>vial_20241029_1\<close>.
\<close>

theorem needs_change_exactly_when:
  assumes "get_correct_vial_for_date B (dict_get injection ''timestamp'' (PStr [])) = Inr cor"
    and "cor \<noteq> PNone"
    and "map_of injection ''PK'' = Some pk" and "map_of injection ''SK'' = Some sk"
    and "cur = dict_get injection ''vialId'' PNone"
    and "emitted = \<lparr>PK = pk, SK = sk, timestamp = dict_get injection ''timestamp'' (PStr []),
                     doseMg = dict_get injection ''doseMg'' PNone,
                     current_vial = py_or B cur (PStr ''NULL''), correct_vial = cor\<rparr>"
    and "map_sum id fst (calculate_changes B before) = Inr c1"
    and "map_sum id fst (calculate_changes B after) = Inr c2"
  shows "(needs_change B cur cor \<longleftrightarrow>
            (cur = PNone \<or> cur \<in> PStr ` set DRY_STOCK_VIALS \<or> cur \<noteq> cor)) \<and>
         map_sum id fst (change_for B injection) =
            Inr (if cur = PNone \<or> cur \<in> PStr ` set DRY_STOCK_VIALS \<or> cur \<noteq> cor
                 then Some emitted else None) \<and>
         map_sum id fst (calculate_changes B (before @ injection # after)) =
            Inr (c1 @ (if cur = PNone \<or> cur \<in> PStr ` set DRY_STOCK_VIALS \<or> cur \<noteq> cor
                       then [emitted] else []) @ c2) \<and>
         needs_change B (PStr ''vial_20241029_2'') (PStr ''vial_20241029_1'') \<and>
         needs_change B (PStr ''vial_20241029_3'') (PStr ''vial_20241029_1'') \<and>
         needs_change B (PStr ''vial_20241029_4'') (PStr ''vial_20241029_1'') \<and>
         get_correct_vial_for_date B (PStr ''2025-11-05T09:00'') = Inr (PStr ''vial_20241029_1'')"
proof -
  let ?cond = "cur = PNone \<or> cur \<in> PStr ` set DRY_STOCK_VIALS \<or> cur \<noteq> cor"
  have n: "needs_change B cur cor \<longleftrightarrow> ?cond"
    using needs_change_iff [OF assms(1,2)] .
  obtain day where day: "date_or_unknown B (dict_get injection ''timestamp'' (PStr [])) = Inr day"
    using policy_some_date [OF assms(1,2)] by blast
  have t: "py_truthy B cor" using policy_truthy [OF assms(1)] assms(2) by simp
  have one: "map_sum id fst (change_for B injection) = Inr (if ?cond then Some emitted else None)"
  proof (cases ?cond)
    case True
    with n have "needs_change B cur cor" by blast
    then have "needs_change B (dict_get injection ''vialId'' PNone) cor"
      unfolding assms(5) .
    with assms(1,3,4) t day
    have "map_sum id fst (change_for B injection) = Inr (Some emitted)"
      unfolding assms(5,6)
      by (simp add: change_for_def dict_item_def Let_def del: py_truthy.simps)
    moreover have "(if ?cond then Some emitted else None) = Some emitted"
      using True by (simp only: if_True)
    ultimately show ?thesis by (simp only:)
  next
    case False
    with n have "\<not> needs_change B cur cor" by blast
    then have "\<not> needs_change B (dict_get injection ''vialId'' PNone) cor"
      unfolding assms(5) .
    with assms(1) t
    have "map_sum id fst (change_for B injection) = Inr None"
      by (simp add: change_for_def Let_def del: py_truthy.simps)
    moreover have "(if ?cond then Some emitted else None) = None"
      using False by (simp only: if_False)
    ultimately show ?thesis by (simp only:)
  qed
  have loop: "map_sum id fst (calculate_changes B (before @ injection # after)) =
            Inr (c1 @ (if ?cond then [emitted] else []) @ c2)"
    using assms(7,8) one
    by (auto simp: calculate_changes_append split: sum.splits prod.splits if_splits)
  have ex: "needs_change B (PStr ''vial_20241029_2'') (PStr ''vial_20241029_1'')"
     "needs_change B (PStr ''vial_20241029_3'') (PStr ''vial_20241029_1'')"
     "needs_change B (PStr ''vial_20241029_4'') (PStr ''vial_20241029_1'')"
     "get_correct_vial_for_date B (PStr ''2025-11-05T09:00'') = Inr (PStr ''vial_20241029_1'')"
    by (simp_all add: needs_change_def get_correct_vial_for_date_def)
  from n one loop ex show ?thesis by blast
qed


theorem needs_change_exactly_when_witness:
  "get_correct_vial_for_date whole (dict_get sample_injection ''timestamp'' (PStr [])) =
     Inr (PStr ''vial_20241029_1'') \<and>
   map_of sample_injection ''PK'' = Some (PStr ''USER#1'') \<and>
   map_of sample_injection ''SK'' = Some (PStr ''INJ#a'') \<and>
   dict_get sample_injection ''vialId'' PNone = PStr ''vial_20241029_3'' \<and>
   needs_change whole (PStr ''vial_20241029_3'') (PStr ''vial_20241029_1'') \<and>
   map_sum id fst (change_for whole sample_injection) = Inr (Some (hd sample_changes)) \<and>
   map_sum id fst (calculate_changes whole ([] @ sample_injection # [])) =
     Inr ([] @ [hd sample_changes] @ [])"
proof -
  have h1: "get_correct_vial_for_date whole (dict_get sample_injection ''timestamp'' (PStr [])) =
     Inr (PStr ''vial_20241029_1'')"
    by code_simp
  have h2: "PStr ''vial_20241029_1'' \<noteq> (PNone :: int pyval)"
    by simp
  have h3: "map_of sample_injection ''PK'' = Some (PStr ''USER#1'')"
    by code_simp
  have h4: "map_of sample_injection ''SK'' = Some (PStr ''INJ#a'')"
    by code_simp
  have h5: "PStr ''vial_20241029_3'' = dict_get sample_injection ''vialId'' PNone"
    by code_simp
  have h6: "hd sample_changes =
      \<lparr>PK = PStr ''USER#1'', SK = PStr ''INJ#a'',
       timestamp = dict_get sample_injection ''timestamp'' (PStr []),
       doseMg = dict_get sample_injection ''doseMg'' PNone,
       current_vial = py_or whole (PStr ''vial_20241029_3'') (PStr ''NULL''),
       correct_vial = PStr ''vial_20241029_1''\<rparr>"
    by code_simp
  have h7: "map_sum id fst (calculate_changes whole []) = Inr []"
    by simp
  have dry: "PStr ''vial_20241029_3'' \<in> (PStr ` set DRY_STOCK_VIALS :: int pyval set)"
    by (simp add: DRY_STOCK_VIALS_def)
  from needs_change_exactly_when [OF h1 h2 h3 h4 h5 h6 h7 h7] dry h1 h3 h4 h5
  show ?thesis
    by (simp only: if_True simp_thms)
qed

lemma change_for_falsy:
  "\<not> py_truthy B (dict_get injection ''timestamp'' (PStr [])) \<Longrightarrow>
   change_for B injection =
     Inr (None, [''  [!] Cannot determine vial for '' @
                 py_str B (dict_get injection ''timestamp'' (PStr []))])"
  by (simp add: change_for_def get_correct_vial_for_date_def Let_def)

text \<open>
  C8, as the code has it. For a timestamp that is empty, null or missing the policy
  returns \<^verbatim>\<open>None\<close>; the planner then prints its diagnostic, emits no change record for the
  injection and goes on with the injections after it. A string that is not empty is never
  refused, whatever it holds: the policy returns one of the three vials for it.
\<close>

theorem empty_timestamp_is_skipped:
  assumes "ts = dict_get injection ''timestamp'' (PStr [])"
    and "ts = PStr [] \<or> ts = PNone"
    and "calculate_changes B before = Inr (c1, o1)"
    and "calculate_changes B after = Inr (c2, o2)"
  shows "get_correct_vial_for_date B ts = Inr PNone \<and>
         change_for B injection = Inr (None, [''  [!] Cannot determine vial for '' @ py_str B ts]) \<and>
         calculate_changes B (before @ injection # after) =
           Inr (c1 @ c2, o1 @ [''  [!] Cannot determine vial for '' @ py_str B ts] @ o2) \<and>
         (s \<noteq> [] \<longrightarrow>
            get_correct_vial_for_date B (PStr s) \<in>
              {Inr (PStr ''vial_20240805_1''), Inr (PStr ''vial_20240805_2''),
               Inr (PStr ''vial_20241029_1'')})"
proof -
  have falsy: "\<not> py_truthy B (dict_get injection ''timestamp'' (PStr []))"
    using assms(1,2) by auto
  have p: "get_correct_vial_for_date B ts = Inr PNone"
    using assms(2) by (auto simp: get_correct_vial_for_date_def)
  have one: "change_for B injection =
      Inr (None, [''  [!] Cannot determine vial for '' @ py_str B ts])"
    using change_for_falsy [OF falsy] assms(1) by simp
  have loop: "calculate_changes B (before @ injection # after) =
           Inr (c1 @ c2, o1 @ [''  [!] Cannot determine vial for '' @ py_str B ts] @ o2)"
    using assms(3,4) one by (simp add: calculate_changes_append)
  have str: "s \<noteq> [] \<longrightarrow>
            get_correct_vial_for_date B (PStr s) \<in>
              {Inr (PStr ''vial_20240805_1''), Inr (PStr ''vial_20240805_2''),
               Inr (PStr ''vial_20241029_1'')}"
    by (simp add: get_correct_vial_for_date_def)
  from p one loop str show ?thesis by blast
qed

theorem empty_timestamp_is_skipped_witness:
  "dict_get [(''PK'', PStr ''USER#1''), (''SK'', PStr ''INJ#d''), (''timestamp'', PStr [])]
     ''timestamp'' (PStr []) = (PStr [] :: int pyval) \<and>
   calculate_changes whole [sample_injection] =
     Inr ([hd sample_changes], [''  2025-11-05 (4.0mg): vial_20241029_3 -> vial_20241029_1'']) \<and>
   calculate_changes whole
     ([sample_injection] @
      [(''PK'', PStr ''USER#1''), (''SK'', PStr ''INJ#d''), (''timestamp'', PStr [])] # []) =
     Inr ([hd sample_changes] @ [],
          [''  2025-11-05 (4.0mg): vial_20241029_3 -> vial_20241029_1''] @
          [''  [!] Cannot determine vial for '' @ py_str whole (PStr [])] @ []) \<and>
   get_correct_vial_for_date whole (PStr []) = Inr PNone"
proof -
  have h1: "(PStr [] :: int pyval) =
      dict_get [(''PK'', PStr ''USER#1''), (''SK'', PStr ''INJ#d''), (''timestamp'', PStr [])]
        ''timestamp'' (PStr [])"
    by code_simp
  have h2: "(PStr [] :: int pyval) = PStr [] \<or> (PStr [] :: int pyval) = PNone"
    by simp
  have h3: "calculate_changes whole [sample_injection] =
     Inr ([hd sample_changes], [''  2025-11-05 (4.0mg): vial_20241029_3 -> vial_20241029_1''])"
    by code_simp
  have h4: "calculate_changes whole [] = Inr ([], [])"
    by simp
  from empty_timestamp_is_skipped [OF h1 h2 h3 h4] h1 h3
  show ?thesis
    by (simp only: simp_thms)
qed

text \<open>
  C8 as stated fails: \<^verbatim>\<open>not a date\<close> is not a date-time, yet the policy returns a vial for
  it and the planner emits a change record to that vial.
\<close>

theorem unparseable_timestamp_gets_a_vial:
  "\<not> spec_date_time ''not a date'' \<and>
   get_correct_vial_for_date whole (PStr ''not a date'') = Inr (PStr ''vial_20241029_1'') \<and>
   map_sum id fst (change_for whole
     [(''PK'', PStr ''USER#1''), (''SK'', PStr ''INJ#e''), (''timestamp'', PStr ''not a date'')]) =
     Inr (Some \<lparr>PK = PStr ''USER#1'', SK = PStr ''INJ#e'', timestamp = PStr ''not a date'',
                doseMg = PNone, current_vial = PStr ''NULL'',
                correct_vial = PStr ''vial_20241029_1''\<rparr>)"
  by (simp add: spec_date_time_def get_correct_vial_for_date_def change_for_def dict_get_def
      dict_item_def needs_change_def py_or_def date_or_unknown_def)

section \<open>Properties of the apply executor\<close>

text \<open>
  The loop from any state of its counters: the requests made, the table and the counts,
  in terms of the calls numbered from those made before.
\<close>

lemma str_prefix_str: "isinstance_str v \<Longrightarrow> \<exists>s. str_prefix n v = Inr s"
  by (cases v) auto

lemma apply_changes_general:
  assumes "\<forall>c \<in> set changes. isinstance_str (SK c)"
  shows "\<exists>out'. apply_changes B E changes dynamodb sc ec out =
     (dynamodb\<lparr>items := foldl (\<lambda>its (n, c). if failure E n = None
                                  then put_update its (request_of B (utcnow E n) c) else its)
                         (items dynamodb)
                         (zip [length (update_calls dynamodb)..<length (update_calls dynamodb) + length changes] changes),
                update_calls := update_calls dynamodb @
                   map (\<lambda>(n, c). request_of B (utcnow E n) c)
                     (zip [length (update_calls dynamodb)..<length (update_calls dynamodb) + length changes] changes)\<rparr>,
      Inr (sc + length (filter (\<lambda>n. failure E n = None)
                          [length (update_calls dynamodb)..<length (update_calls dynamodb) + length changes]),
           ec + length (filter (\<lambda>n. failure E n \<noteq> None)
                          [length (update_calls dynamodb)..<length (update_calls dynamodb) + length changes]),
           out'))"
  using assms
proof (induction changes arbitrary: dynamodb sc ec out)
  case Nil
  then show ?case by simp
next
  case (Cons c changes)
  let ?n = "length (update_calls dynamodb)"
  from Cons.prems obtain s where s: "str_prefix 40 (SK c) = Inr s"
    using str_prefix_str by (metis list.set_intros(1))
  have rest: "\<forall>c \<in> set changes. isinstance_str (SK c)" using Cons.prems by simp
  have upt: "[?n..<?n + length (c # changes)] = ?n # [Suc ?n..<Suc ?n + length changes]"
    by (simp add: upt_rec)
  show ?case
  proof (cases "failure E ?n")
    case None
    let ?d = "dynamodb\<lparr>update_calls := update_calls dynamodb @ [request_of B (utcnow E ?n) c],
                       items := put_update (items dynamodb) (request_of B (utcnow E ?n) c)\<rparr>"
    have len: "length (update_calls ?d) = Suc ?n" by simp
    from Cons.IH [OF rest, of ?d "sc + 1" ec] None s show ?thesis
      unfolding upt len
      by (auto simp: update_item_def Let_def)
  next
    case (Some m)
    let ?d = "dynamodb\<lparr>update_calls := update_calls dynamodb @ [request_of B (utcnow E ?n) c]\<rparr>"
    have len: "length (update_calls ?d) = Suc ?n" by simp
    from Cons.IH [OF rest, of ?d sc "ec + 1"] Some s show ?thesis
      unfolding upt len
      by (auto simp: update_item_def Let_def)
  qed
qed


text \<open>
  C7. When the sort keys of the change records are strings, the loop makes one update call
  for each change record, in the order of the change-set: the requests recorded are those
  of the changes, numbered from the calls made before. An update that raises is counted
  in \<^verbatim>\<open>error_count\<close> and changes nothing; every other one is counted in \<^verbatim>\<open>success_count\<close>
  and written to the table, also after a failure; the two counts add up to the number of
  change records.
\<close>

theorem apply_changes_attempts_every_change:
  assumes "list_all (\<lambda>c. isinstance_str (SK c)) changes"
    and "n = length (update_calls dynamodb)"
    and "calls = zip [n..<n + length changes] changes"
  shows "\<exists>success_count error_count out'.
     apply_changes B E changes dynamodb 0 0 out =
       (dynamodb\<lparr>items := foldl (\<lambda>its (k, c). if failure E k = None
                                      then put_update its (request_of B (utcnow E k) c) else its)
                            (items dynamodb) calls,
                  update_calls := update_calls dynamodb @
                                    map (\<lambda>(k, c). request_of B (utcnow E k) c) calls\<rparr>,
        Inr (success_count, error_count, out')) \<and>
     success_count = length (filter (\<lambda>(k, c). failure E k = None) calls) \<and>
     error_count = length (filter (\<lambda>(k, c). failure E k \<noteq> None) calls) \<and>
     success_count + error_count = length changes"
proof -
  have str: "\<forall>c \<in> set changes. isinstance_str (SK c)"
    using assms(1) by (simp add: list_all_iff)
  have len: "length calls = length changes"
    using assms(3) by simp
  have fst_calls: "map fst calls = [n..<n + length changes]"
    using assms(3) by simp
  have s: "length (filter (\<lambda>k. failure E k = None) [n..<n + length changes]) =
           length (filter (\<lambda>(k, c). failure E k = None) calls)"
    unfolding fst_calls [symmetric] by (simp add: filter_map comp_def case_prod_unfold)
  have e: "length (filter (\<lambda>k. failure E k \<noteq> None) [n..<n + length changes]) =
           length (filter (\<lambda>(k, c). failure E k \<noteq> None) calls)"
    unfolding fst_calls [symmetric] by (simp add: filter_map comp_def case_prod_unfold)
  have total: "length (filter (\<lambda>(k, c). failure E k = None) calls) +
               length (filter (\<lambda>(k, c). failure E k \<noteq> None) calls) = length changes"
    using sum_length_filter_compl [of "\<lambda>(k, c). failure E k = None" calls] len
    by (simp add: case_prod_unfold)
  from apply_changes_general [OF str, of B E dynamodb 0 0 out]
  obtain out' where
    "apply_changes B E changes dynamodb 0 0 out =
       (dynamodb\<lparr>items := foldl (\<lambda>its (k, c). if failure E k = None
                                      then put_update its (request_of B (utcnow E k) c) else its)
                            (items dynamodb) calls,
                  update_calls := update_calls dynamodb @
                                    map (\<lambda>(k, c). request_of B (utcnow E k) c) calls\<rparr>,
        Inr (length (filter (\<lambda>(k, c). failure E k = None) calls),
             length (filter (\<lambda>(k, c). failure E k \<noteq> None) calls), out'))"
    unfolding assms(2,3) [symmetric] s e by auto
  with total show ?thesis by blast
qed

theorem apply_changes_attempts_every_change_witness:
  "list_all (\<lambda>c. isinstance_str (SK c)) sample_changes \<and>
   apply_changes whole failing_env sample_changes sample_store 0 0 [] =
     (sample_store\<lparr>items :=
        [injection_item ''INJ#a'' [(''timestamp'', [(''S'', PStr ''2025-11-05T09:00'')]),
                                 (''doseMg'', [(''N'', PStr ''4'')]),
                                 (''vialId'', [(''S'', PStr ''vial_20241029_3'')])],
         injection_item ''INJ#b'' [(''timestamp'', [(''S'', PStr ''2025-09-20T08:00'')]),
                                 (''doseMg'', [(''N'', PStr ''2'')]),
                                 (''vialId'', [(''S'', PStr ''vial_20240805_2'')]),
                                 (''updatedAt'', [(''S'', PStr ''2025-11-10T12:00:00Z'')])],
         injection_item ''INJ#c'' [(''timestamp'', [(''S'', PStr ''2025-08-10T08:00'')]),
                                 (''doseMg'', [(''N'', PStr ''2'')]),
                                 (''vialId'', [(''S'', PStr ''vial_20240805_1'')])],
         [(''PK'', [(''S'', PStr ''USER#1'')]), (''SK'', [(''S'', PStr ''VIAL#1'')]),
          (''entityType'', [(''S'', PStr ''VIAL'')])]],
        update_calls :=
        [([(''S'', PStr ''USER#1'')], [(''S'', PStr ''INJ#a'')],
          [(''S'', PStr ''vial_20241029_1'')], [(''S'', PStr ''2025-11-10T12:00:00Z'')]),
         ([(''S'', PStr ''USER#1'')], [(''S'', PStr ''INJ#b'')],
          [(''S'', PStr ''vial_20240805_2'')], [(''S'', PStr ''2025-11-10T12:00:00Z'')])]\<rparr>,
      Inr (1, 1,
           [''  Updating INJ#a...'',
            ''    [FAIL] Error: ProvisionedThroughputExceededException'',
            ''  Updating INJ#b...'', ''    [OK] Updated to vial_20240805_2'']))"
proof -
  have h: "list_all (\<lambda>c. isinstance_str (SK c)) sample_changes"
    by code_simp
  have ev: "apply_changes whole failing_env sample_changes sample_store 0 0 [] =
     (sample_store\<lparr>items :=
        [injection_item ''INJ#a'' [(''timestamp'', [(''S'', PStr ''2025-11-05T09:00'')]),
                                 (''doseMg'', [(''N'', PStr ''4'')]),
                                 (''vialId'', [(''S'', PStr ''vial_20241029_3'')])],
         injection_item ''INJ#b'' [(''timestamp'', [(''S'', PStr ''2025-09-20T08:00'')]),
                                 (''doseMg'', [(''N'', PStr ''2'')]),
                                 (''vialId'', [(''S'', PStr ''vial_20240805_2'')]),
                                 (''updatedAt'', [(''S'', PStr ''2025-11-10T12:00:00Z'')])],
         injection_item ''INJ#c'' [(''timestamp'', [(''S'', PStr ''2025-08-10T08:00'')]),
                                 (''doseMg'', [(''N'', PStr ''2'')]),
                                 (''vialId'', [(''S'', PStr ''vial_20240805_1'')])],
         [(''PK'', [(''S'', PStr ''USER#1'')]), (''SK'', [(''S'', PStr ''VIAL#1'')]),
          (''entityType'', [(''S'', PStr ''VIAL'')])]],
        update_calls :=
        [([(''S'', PStr ''USER#1'')], [(''S'', PStr ''INJ#a'')],
          [(''S'', PStr ''vial_20241029_1'')], [(''S'', PStr ''2025-11-10T12:00:00Z'')]),
         ([(''S'', PStr ''USER#1'')], [(''S'', PStr ''INJ#b'')],
          [(''S'', PStr ''vial_20240805_2'')], [(''S'', PStr ''2025-11-10T12:00:00Z'')])]\<rparr>,
      Inr (1, 1,
           [''  Updating INJ#a...'',
            ''    [FAIL] Error: ProvisionedThroughputExceededException'',
            ''  Updating INJ#b...'', ''    [OK] Updated to vial_20240805_2'']))"
    by code_simp
  from apply_changes_attempts_every_change [OF h refl refl, of whole failing_env sample_store "[]"]
    h ev
  show ?thesis by (simp only: simp_thms)
qed

section \<open>Properties of the run\<close>

text \<open>
  \<^verbatim>\<open>main\<close> stage by stage: either it ends with an exception before the plan is made and
  leaves the store alone, or the plan is made and the rest follows from it.
\<close>

lemma main_planned:
  assumes "parse_items B (scan_all_items dynamodb ''INJECTION'') = Inr injections"
    and "parse_items B (scan_all_items dynamodb ''VIAL'') = Inr vials"
    and "current_distribution B injections = Inr current"
    and "calculate_changes B injections = Inr (changes, needed)"
  shows "main B E a dynamodb =
     (if changes = []
      then (dynamodb, Inr (printed_plan B a injections vials current needed @
                           [''  No changes needed - distribution is already correct!'']))
      else case expected_distribution B injections of
        Inl e \<Rightarrow> (dynamodb, Inl e)
      | Inr expected \<Rightarrow>
          if dry_run a
          then (dynamodb, Inr (printed_plan B a injections vials current needed @
                               printed_expected B changes expected @
                               [CHR 0x0A # ''[DRY RUN] No changes applied'',
                                ''Run without --dry-run to apply changes'']))
          else case apply_changes B E changes dynamodb 0 0
                      (printed_plan B a injections vials current needed @
                       printed_expected B changes expected @
                       [CHR 0x0A # ''Applying changes...'']) of
                 (dynamodb', Inl e) \<Rightarrow> (dynamodb', Inl e)
               | (dynamodb', Inr (success_count, error_count, out3)) \<Rightarrow>
                   (dynamodb', Inr (out3 @ [CHR 0x0A # ''Done! Updated ''
                                     @ py_str B (PInt (int success_count)) @ '' injections, ''
                                     @ py_str B (PInt (int error_count)) @ '' errors''])))"
  using assms by (simp add: main_def)

lemma main_not_planned:
  assumes "parse_items B (scan_all_items dynamodb ''INJECTION'') = Inl e \<or>
     (\<exists>injections. parse_items B (scan_all_items dynamodb ''INJECTION'') = Inr injections \<and>
        (parse_items B (scan_all_items dynamodb ''VIAL'') = Inl e \<or>
         (\<exists>vials. parse_items B (scan_all_items dynamodb ''VIAL'') = Inr vials \<and>
            (current_distribution B injections = Inl e \<or>
             (\<exists>current. current_distribution B injections = Inr current \<and>
                calculate_changes B injections = Inl e)))))"
  shows "main B E a dynamodb = (dynamodb, Inl e)"
  using assms unfolding main_def by (elim disjE exE conjE) simp_all

lemma main_cases:
  obtains (aborted) e where "main B E a dynamodb = (dynamodb, Inl e)"
  | (planned) injections vials current changes needed where
      "parse_items B (scan_all_items dynamodb ''INJECTION'') = Inr injections"
      "parse_items B (scan_all_items dynamodb ''VIAL'') = Inr vials"
      "current_distribution B injections = Inr current"
      "calculate_changes B injections = Inr (changes, needed)"
proof (cases "parse_items B (scan_all_items dynamodb ''INJECTION'')")
  case (Inl e)
  then show ?thesis using aborted main_not_planned by metis
next
  case i: (Inr injections)
  show ?thesis
  proof (cases "parse_items B (scan_all_items dynamodb ''VIAL'')")
    case (Inl e)
    with i show ?thesis using aborted main_not_planned by metis
  next
    case v: (Inr vials)
    show ?thesis
    proof (cases "current_distribution B injections")
      case (Inl e)
      with i v show ?thesis using aborted main_not_planned by metis
    next
      case c: (Inr current)
      show ?thesis
      proof (cases "calculate_changes B injections")
        case (Inl e)
        with i v c show ?thesis using aborted main_not_planned by metis
      next
        case (Inr r)
        with i v c show ?thesis using planned by (cases r) auto
      qed
    qed
  qed
qed


text \<open>
  C6, as the code has it. With the dry-run flag set the run leaves the store as it found
  it, whatever the store holds and whether the run ends normally or with an exception: no
  item is written and no update call is made. When such a run ends normally it has
  printed the change-set; if the change-set is empty it stops there, after the line
  \<^verbatim>\<open>No changes needed\<close> and without an expected distribution; otherwise it has printed the
  expected distribution and then the two dry-run lines.
\<close>

theorem dry_run_writes_nothing:
  assumes "dry_run a"
  shows "fst (main B E a dynamodb) = dynamodb \<and>
    (\<forall>out. snd (main B E a dynamodb) = Inr out \<longrightarrow>
       (\<exists>injections vials current changes needed.
          parse_items B (scan_all_items dynamodb ''INJECTION'') = Inr injections \<and>
          parse_items B (scan_all_items dynamodb ''VIAL'') = Inr vials \<and>
          current_distribution B injections = Inr current \<and>
          calculate_changes B injections = Inr (changes, needed) \<and>
          (if changes = []
           then out = printed_plan B a injections vials current needed @
                  [''  No changes needed - distribution is already correct!'']
           else \<exists>expected.
                  expected_distribution B injections = Inr expected \<and>
                  out = printed_plan B a injections vials current needed @
                        printed_expected B changes expected @
                        [CHR 0x0A # ''[DRY RUN] No changes applied'',
                         ''Run without --dry-run to apply changes''])))"
proof (cases rule: main_cases [of B E a dynamodb])
  case (aborted e)
  then show ?thesis by simp
next
  case (planned injections vials current changes needed)
  note m = main_planned [OF planned, of E a]
  show ?thesis
  proof (cases "changes = []")
    case True
    with m have "main B E a dynamodb =
        (dynamodb, Inr (printed_plan B a injections vials current needed @
                        [''  No changes needed - distribution is already correct!'']))"
      by simp
    with planned True show ?thesis by auto
  next
    case False
    show ?thesis
    proof (cases "expected_distribution B injections")
      case (Inl e)
      with m False have "main B E a dynamodb = (dynamodb, Inl e)" by simp
      then show ?thesis by simp
    next
      case (Inr expected)
      with m False assms have "main B E a dynamodb =
          (dynamodb, Inr (printed_plan B a injections vials current needed @
                          printed_expected B changes expected @
                          [CHR 0x0A # ''[DRY RUN] No changes applied'',
                           ''Run without --dry-run to apply changes'']))"
        by simp
      with planned False Inr show ?thesis by auto
    qed
  qed
qed

theorem dry_run_writes_nothing_witness:
  "dry_run dry_args \<and>
   fst (main whole sample_env dry_args sample_store) = sample_store \<and>
   snd (main whole sample_env dry_args sample_store) =
     Inr [''Connecting to DynamoDB (profile: reta-admin, region: eu-west-1)...'',
          ''Fetching all injections...'', ''  Found 3 injections'',
          ''Fetching all vials...'', ''  Found 1 vials'',
          rule60, ''Current vial distribution:'', line60,
          ''  NULL/unassigned: 1 shots, 2.0mg total'',
          ''    - 2025-09-20: 2.0mg'',
          ''  vial_20240805_1: 1 shots, 2.0mg total'',
          ''    - 2025-08-10: 2.0mg'',
          ''  vial_20241029_3: 1 shots, 4.0mg total [WARNING] SHOULD NOT HAVE SHOTS!'',
          ''    - 2025-11-05: 4.0mg'',
          rule60, ''Changes needed:'', line60,
          ''  2025-11-05 (4.0mg): vial_20241029_3 -> vial_20241029_1'',
          ''  2025-09-20 (2.0mg): NULL -> vial_20240805_2'',
          CHR 0x0A # ''Total changes: 2'',
          rule60, ''Expected distribution after fix:'', line60,
          ''  vial_20240805_1: 1 shots, 2.0mg total'',
          ''  vial_20240805_2: 1 shots, 2.0mg total'',
          ''  vial_20241029_1: 1 shots, 4.0mg total'',
          CHR 0x0A # ''[DRY RUN] No changes applied'',
          ''Run without --dry-run to apply changes'']"
proof -
  have h: "dry_run dry_args"
    by code_simp
  have ev: "snd (main whole sample_env dry_args sample_store) =
     Inr [''Connecting to DynamoDB (profile: reta-admin, region: eu-west-1)...'',
          ''Fetching all injections...'', ''  Found 3 injections'',
          ''Fetching all vials...'', ''  Found 1 vials'',
          rule60, ''Current vial distribution:'', line60,
          ''  NULL/unassigned: 1 shots, 2.0mg total'',
          ''    - 2025-09-20: 2.0mg'',
          ''  vial_20240805_1: 1 shots, 2.0mg total'',
          ''    - 2025-08-10: 2.0mg'',
          ''  vial_20241029_3: 1 shots, 4.0mg total [WARNING] SHOULD NOT HAVE SHOTS!'',
          ''    - 2025-11-05: 4.0mg'',
          rule60, ''Changes needed:'', line60,
          ''  2025-11-05 (4.0mg): vial_20241029_3 -> vial_20241029_1'',
          ''  2025-09-20 (2.0mg): NULL -> vial_20240805_2'',
          CHR 0x0A # ''Total changes: 2'',
          rule60, ''Expected distribution after fix:'', line60,
          ''  vial_20240805_1: 1 shots, 2.0mg total'',
          ''  vial_20240805_2: 1 shots, 2.0mg total'',
          ''  vial_20241029_1: 1 shots, 4.0mg total'',
          CHR 0x0A # ''[DRY RUN] No changes applied'',
          ''Run without --dry-run to apply changes'']"
    by code_simp
  from dry_run_writes_nothing [OF h, of whole sample_env sample_store] h ev
  show ?thesis by (simp only: simp_thms)
qed

text \<open>
  C6 as stated fails: when nothing needs a change, a dry run ends after
  \<^verbatim>\<open>No changes needed\<close> without printing an expected distribution.
\<close>

theorem dry_run_without_expected_distribution:
  "main whole sample_env dry_args settled_store =
     (settled_store,
      Inr [''Connecting to DynamoDB (profile: reta-admin, region: eu-west-1)...'',
           ''Fetching all injections...'', ''  Found 1 injections'',
           ''Fetching all vials...'', ''  Found 0 vials'',
           rule60, ''Current vial distribution:'', line60,
           ''  vial_20240805_1: 1 shots, 2.0mg total'',
           ''    - 2025-08-10: 2.0mg'',
           rule60, ''Changes needed:'', line60,
           ''  No changes needed - distribution is already correct!''])"
  by code_simp

text \<open>
  A run can also end with an exception after the plan is made. The report of the current
  distribution sorts its keys with \<^verbatim>\<open>key=lambda x: str(x[0])\<close>; the report of the expected
  distribution sorts \<^verbatim>\<open>expected.items()\<close> as they are, and its keys are \<^verbatim>\<open>None\<close> and a string
  as soon as one injection is skipped and another is dated: \<^verbatim>\<open>sorted\<close> raises TypeError,
  before the dry-run exit and before any update.
\<close>

lemma expected_distribution_raises_after_skip:
  "main whole sample_env dry_args partly_dated_store = (partly_dated_store, Inl TypeError) \<and>
   main whole sample_env live_args partly_dated_store = (partly_dated_store, Inl TypeError)"
  by code_simp

text \<open>
  C5 as stated fails: an injection without a timestamp is skipped by the planner, so a
  live run in which no update fails leaves it with no vial.
\<close>

theorem undated_injection_stays_unassigned:
  "main whole sample_env live_args undated_store =
     (undated_store,
      Inr [''Connecting to DynamoDB (profile: reta-admin, region: eu-west-1)...'',
           ''Fetching all injections...'', ''  Found 1 injections'',
           ''Fetching all vials...'', ''  Found 0 vials'',
           rule60, ''Current vial distribution:'', line60,
           ''  NULL/unassigned: 1 shots, 2.0mg total'',
           ''    - unknown: 2.0mg'',
           rule60, ''Changes needed:'', line60,
           ''  [!] Cannot determine vial for '',
           ''  No changes needed - distribution is already correct!'']) \<and>
   scan_all_items undated_store ''INJECTION'' =
     [injection_item ''INJ#d'' [(''doseMg'', [(''N'', PStr ''2'')])]] \<and>
   map_of (injection_item ''INJ#d'' [(''doseMg'', [(''N'', PStr ''2'')])]) ''vialId'' = None"
  by code_simp

section \<open>Properties of the reconciliation\<close>

text \<open>
  The idempotence of the plan and apply cycle and the state of the table after a live run
  rest on three facts: parsing an item reads each attribute by itself; on a well-keyed
  table an update changes the one item its key names, and only the two attributes it
  sets; and every change record comes from an item of the table, whose key and policy
  vial it carries.
\<close>

subsection \<open>Parsing an item\<close>

lemma string_value_Some: "string_value d = Some s \<longleftrightarrow> d = [(''S'', PStr s)]"
  by (induction d rule: string_value.induct) auto

lemma parse_item_map_of:
  "parse_item B item = Inr injection \<Longrightarrow>
   map_of injection k =
     (case map_of item k of
        None \<Rightarrow> None
      | Some v \<Rightarrow> (case parse_dynamo_value B v of Inl e \<Rightarrow> None | Inr pv \<Rightarrow> Some pv))"
proof (induction item arbitrary: injection)
  case Nil
  then show ?case by simp
next
  case (Cons kv item)
  then show ?case
    by (cases kv) (auto split: sum.splits)
qed

lemma parse_item_values:
  "parse_item B item = Inr injection \<Longrightarrow>
   \<forall>(k, v) \<in> set item. \<exists>pv. parse_dynamo_value B v = Inr pv"
proof (induction item arbitrary: injection)
  case Nil
  then show ?case by simp
next
  case (Cons kv item)
  then show ?case
    by (cases kv) (auto split: sum.splits)
qed

lemma parse_item_total:
  "\<forall>(k, v) \<in> set item. \<exists>pv. parse_dynamo_value B v = Inr pv \<Longrightarrow>
   \<exists>injection. parse_item B item = Inr injection"
proof (induction item)
  case Nil
  then show ?case by simp
next
  case (Cons kv item)
  then show ?case
    by (cases kv) (auto split: sum.splits)
qed

subsection \<open>Updates of a well-keyed table\<close>

lemma set_update_subset: "set (AList.update k v al) \<subseteq> insert (k, v) (set al)"
  by (induction al) auto

lemma map_of_set_attributes:
  "map_of (set_attributes vial updated item) k =
     (if k = ''updatedAt'' then Some updated
      else if k = ''vialId'' then Some vial else map_of item k)"
  by (simp add: set_attributes_def update_conv')

lemma set_set_attributes:
  "set (set_attributes vial updated item) \<subseteq>
     insert (''updatedAt'', updated) (insert (''vialId'', vial) (set item))"
  unfolding set_attributes_def
  using set_update_subset [of "''updatedAt''" updated "AList.update ''vialId'' vial item"]
    set_update_subset [of "''vialId''" vial item]
  by blast

lemma raw_key_set_attributes [simp]: "raw_key (set_attributes vial updated item) = raw_key item"
  by (simp add: raw_key_def map_of_set_attributes)

lemma raw_key_update_one [simp]: "raw_key (update_one item r) = raw_key item"
  by (cases r) simp

lemma raw_key_item_after [simp]: "raw_key (item_after rs item) = raw_key item"
  unfolding item_after_def by (induction rs arbitrary: item) simp_all

lemma put_update_map:
  "distinct (map raw_key table_items) \<Longrightarrow>
   (Some pk, Some sk) \<in> raw_key ` set table_items \<Longrightarrow>
   put_update table_items (pk, sk, vial, updated) =
     map (\<lambda>item. update_one item (pk, sk, vial, updated)) table_items"
proof (induction table_items)
  case Nil
  then show ?case by simp
next
  case (Cons item table_items)
  show ?case
  proof (cases "raw_key item = (Some pk, Some sk)")
    case True
    with Cons.prems(1) have "\<forall>other \<in> set table_items. raw_key other \<noteq> (Some pk, Some sk)"
      by (metis distinct.simps(2) image_eqI list.simps(9) list.set_map)
    then have "map (\<lambda>item. update_one item (pk, sk, vial, updated)) table_items = table_items"
      by (induction table_items) auto
    with True show ?thesis by (simp add: raw_key_def)
  next
    case False
    with Cons show ?thesis by (auto simp: raw_key_def)
  qed
qed

lemma foldl_put_update_map:
  "distinct (map raw_key table_items) \<Longrightarrow>
   \<forall>(pk, sk, vial, updated) \<in> set rs. (Some pk, Some sk) \<in> raw_key ` set table_items \<Longrightarrow>
   foldl put_update table_items rs = map (item_after rs) table_items"
proof (induction rs arbitrary: table_items)
  case Nil
  then show ?case by (simp add: item_after_def)
next
  case (Cons r rs)
  obtain pk sk vial updated where r: "r = (pk, sk, vial, updated)"
    by (cases r) auto
  let ?next = "map (\<lambda>item. update_one item r) table_items"
  have step: "put_update table_items r = ?next"
    using Cons.prems r put_update_map by fastforce
  have keys: "map raw_key ?next = map raw_key table_items"
    by (simp add: comp_def)
  have d: "distinct (map raw_key ?next)"
    using Cons.prems(1) unfolding keys .
  have k: "raw_key ` set ?next = raw_key ` set table_items"
    using keys by (metis list.set_map)
  have "foldl put_update ?next rs = map (item_after rs) ?next"
    using Cons.IH [OF d] Cons.prems(2) k by simp
  with step show ?case
    by (simp add: item_after_def comp_def)
qed

lemma map_of_update_one_other:
  "k \<noteq> ''vialId'' \<Longrightarrow> k \<noteq> ''updatedAt'' \<Longrightarrow> map_of (update_one item r) k = map_of item k"
  by (cases r) (simp add: map_of_set_attributes)

lemma map_of_item_after_other:
  "k \<noteq> ''vialId'' \<Longrightarrow> k \<noteq> ''updatedAt'' \<Longrightarrow> map_of (item_after rs item) k = map_of item k"
  unfolding item_after_def
  by (induction rs arbitrary: item) (simp_all add: map_of_update_one_other)

lemma item_after_untouched:
  "\<forall>r \<in> set rs. \<not> matches item r \<Longrightarrow> item_after rs item = item"
  unfolding item_after_def
  by (induction rs arbitrary: item) (auto simp: matches_def)

lemma matches_update_one [simp]: "matches (update_one item r) r' = matches item r'"
  by (simp add: matches_def)

lemma item_after_vial:
  "\<exists>r \<in> set rs. matches item r \<Longrightarrow>
   \<forall>r \<in> set rs. matches item r \<longrightarrow> vial_of r = vial \<Longrightarrow>
   map_of (item_after rs item) ''vialId'' = Some vial"
proof (induction rs arbitrary: item rule: rev_induct)
  case Nil
  then show ?case by simp
next
  case (snoc r rs)
  obtain pk sk v u where r: "r = (pk, sk, v, u)" by (cases r) auto
  have after: "item_after (rs @ [r]) item = update_one (item_after rs item) r"
    by (simp add: item_after_def)
  show ?case
  proof (cases "matches item r")
    case True
    with snoc.prems(2) have "vial_of r = vial" by simp
    with True r show ?thesis
      unfolding after by (simp add: matches_def vial_of_def map_of_set_attributes)
  next
    case False
    with snoc.prems have "\<exists>r \<in> set rs. matches item r"
      and "\<forall>r \<in> set rs. matches item r \<longrightarrow> vial_of r = vial" by auto
    from snoc.IH [OF this] False r show ?thesis
      unfolding after by (simp add: matches_def)
  qed
qed

lemma item_after_values:
  "(k, v) \<in> set (item_after rs item) \<Longrightarrow>
   (k, v) \<in> set item \<or> (\<exists>r \<in> set rs. v = vial_of r \<or> v = updated_of r)"
proof (induction rs arbitrary: k v rule: rev_induct)
  case Nil
  then show ?case by (simp add: item_after_def)
next
  case (snoc r rs)
  obtain pk sk vi u where r: "r = (pk, sk, vi, u)" by (cases r) auto
  have after: "item_after (rs @ [r]) item = update_one (item_after rs item) r"
    by (simp add: item_after_def)
  have "(k, v) \<in> set (update_one (item_after rs item) (pk, sk, vi, u))"
    using snoc.prems after r by simp
  then have
    "(k, v) \<in> set (item_after rs item) \<or> v = vi \<or> v = u"
    using set_set_attributes [of vi u "item_after rs item"]
    by (auto split: if_splits)
  with snoc.IH r show ?case
    by (auto simp: vial_of_def updated_of_def)
qed

subsection \<open>What the planner emits\<close>

lemma change_for_Some:
  assumes "change_for B injection = Inr (Some c, out)"
  shows "map_of injection ''PK'' = Some (PK c) \<and> map_of injection ''SK'' = Some (SK c) \<and>
   get_correct_vial_for_date B (dict_get injection ''timestamp'' (PStr [])) = Inr (correct_vial c) \<and>
   correct_vial c \<noteq> PNone \<and>
   needs_change B (dict_get injection ''vialId'' PNone) (correct_vial c)"
proof (cases "get_correct_vial_for_date B (dict_get injection ''timestamp'' (PStr []))")
  case (Inl e)
  with assms show ?thesis by (simp add: change_for_def Let_def)
next
  case (Inr cor)
  note t = policy_truthy [OF Inr]
  from assms Inr t show ?thesis
    by (auto simp: change_for_def Let_def dict_item_def simp del: py_truthy.simps
        split: sum.splits if_splits option.splits)
qed

lemma change_for_None:
  assumes "change_for B injection = Inr (None, out)"
  shows "\<exists>cor. get_correct_vial_for_date B (dict_get injection ''timestamp'' (PStr [])) = Inr cor \<and>
     (cor \<noteq> PNone \<longrightarrow> \<not> needs_change B (dict_get injection ''vialId'' PNone) cor)"
proof (cases "get_correct_vial_for_date B (dict_get injection ''timestamp'' (PStr []))")
  case (Inl e)
  with assms show ?thesis by (simp add: change_for_def Let_def)
next
  case (Inr cor)
  note t = policy_truthy [OF Inr]
  from assms Inr t show ?thesis
    by (auto simp: change_for_def Let_def dict_item_def simp del: py_truthy.simps
        split: sum.splits if_splits option.splits)
qed

lemma calculate_changes_sources:
  "calculate_changes B injections = Inr (changes, needed) \<Longrightarrow> c \<in> set changes \<Longrightarrow>
   \<exists>injection \<in> set injections. \<exists>out. change_for B injection = Inr (Some c, out)"
proof (induction injections arbitrary: changes needed)
  case Nil
  then show ?case by simp
next
  case (Cons i injections)
  then show ?case
    by (auto split: sum.splits option.splits prod.splits)
qed

lemma calculate_changes_each:
  "calculate_changes B injections = Inr (changes, needed) \<Longrightarrow> injection \<in> set injections \<Longrightarrow>
   \<exists>c out. change_for B injection = Inr (c, out) \<and> (\<forall>ch. c = Some ch \<longrightarrow> ch \<in> set changes)"
proof (induction injections arbitrary: changes needed)
  case Nil
  then show ?case by simp
next
  case (Cons i injections)
  then show ?case
    by (fastforce split: sum.splits option.splits prod.splits)
qed

lemma calculate_changes_none:
  "\<forall>injection \<in> set injections. \<exists>out. change_for B injection = Inr (None, out) \<Longrightarrow>
   \<exists>needed. calculate_changes B injections = Inr ([], needed)"
proof (induction injections)
  case Nil
  then show ?case by simp
next
  case (Cons i injections)
  then show ?case by fastforce
qed

subsection \<open>From the items of the table to the change records\<close>

lemma parse_items_forward:
  "parse_items B its = Inr injs \<Longrightarrow> it \<in> set its \<Longrightarrow> \<exists>i \<in> set injs. parse_item B it = Inr i"
  by (induction its arbitrary: injs) (auto split: sum.splits)

lemma parse_items_backward:
  "parse_items B its = Inr injs \<Longrightarrow> i \<in> set injs \<Longrightarrow> \<exists>it \<in> set its. parse_item B it = Inr i"
  by (induction its arbitrary: injs) (auto split: sum.splits)

lemma parse_items_map:
  "\<forall>it \<in> set its. \<exists>i. parse_item B (f it) = Inr i \<and> Q i \<Longrightarrow>
   \<exists>injs. parse_items B (map f its) = Inr injs \<and> (\<forall>i \<in> set injs. Q i)"
proof (induction its)
  case Nil
  then show ?case by simp
next
  case (Cons it its)
  then obtain i injs where "parse_item B (f it) = Inr i" "Q i"
    "parse_items B (map f its) = Inr injs" "\<forall>i \<in> set injs. Q i"
    by auto
  then show ?case by simp
qed

lemma parse_string [simp]: "parse_dynamo_value B [(''S'', v)] = Inr v"
  by (simp add: parse_dynamo_value_def)

lemma format_string [simp]: "format_dynamo_value B (PStr s) = [(''S'', PStr s)]"
  by (simp add: format_dynamo_value_def)

lemma string_keyed_parsed:
  assumes "string_keyed it" and "parse_item B it = Inr i"
  shows "\<exists>p s. raw_key it = (Some [(''S'', PStr p)], Some [(''S'', PStr s)]) \<and>
               map_of i ''PK'' = Some (PStr p) \<and> map_of i ''SK'' = Some (PStr s)"
proof -
  from assms(1) obtain pk sk p s where k: "raw_key it = (Some pk, Some sk)"
    and "string_value pk = Some p" "string_value sk = Some s"
    by (auto simp: string_keyed_def split: prod.splits option.splits)
  then have pk: "pk = [(''S'', PStr p)]" and sk: "sk = [(''S'', PStr s)]"
    by (simp_all add: string_value_Some)
  from k have "map_of it ''PK'' = Some pk" "map_of it ''SK'' = Some sk"
    by (simp_all add: raw_key_def)
  with parse_item_map_of [OF assms(2)] pk sk
  have "map_of i ''PK'' = Some (PStr p)" "map_of i ''SK'' = Some (PStr s)"
    by simp_all
  with k pk sk show ?thesis by blast
qed

lemma policy_is_string:
  "get_correct_vial_for_date B v = Inr cor \<Longrightarrow> cor \<noteq> PNone \<Longrightarrow> \<exists>s. cor = PStr s"
  by (auto dest!: policy_cases)

lemma needs_no_change:
  "get_correct_vial_for_date B v = Inr cor \<Longrightarrow> cor \<noteq> PNone \<Longrightarrow> \<not> needs_change B cor cor"
proof -
  assume a: "get_correct_vial_for_date B v = Inr cor" "cor \<noteq> PNone"
  from policy_cases [OF a(1)] a(2)
  have "cor = PStr ''vial_20240805_1'' \<or> cor = PStr ''vial_20240805_2'' \<or>
        cor = PStr ''vial_20241029_1''" by simp
  from active_not_dry [OF this, of B] a(2) show ?thesis
    by (simp add: needs_change_def)
qed

lemma settled_change_for:
  assumes "get_correct_vial_for_date B (dict_get i ''timestamp'' (PStr [])) = Inr cor"
    and "cor \<noteq> PNone \<longrightarrow> dict_get i ''vialId'' PNone = cor"
  shows "\<exists>out. change_for B i = Inr (None, out)"
proof (cases "cor = PNone")
  case True
  with assms(1) show ?thesis by (simp add: change_for_def Let_def)
next
  case False
  with assms(2) have cur: "dict_get i ''vialId'' PNone = cor" by simp
  from needs_no_change [OF assms(1) False] policy_truthy [OF assms(1)] False assms(1) cur
  show ?thesis
    by (simp add: change_for_def Let_def del: py_truthy.simps)
qed

lemma needs_change_not_settled:
  "\<not> needs_change B cur cor \<Longrightarrow> cur = cor"
  by (auto simp: needs_change_def split: if_splits)

subsection \<open>The table after the updates\<close>

lemma request_of_parts:
  "request_of B now c =
     (format_dynamo_value B (PK c), format_dynamo_value B (SK c),
      format_dynamo_value B (correct_vial c), [(''S'', PStr (now @ ''Z''))])"
  by (simp add: request_of_def)

lemma requests_for_Nil [simp]: "requests_for B E n [] = []"
  by (simp add: requests_for_def)

lemma requests_for_Cons:
  "requests_for B E n (c # cs) = request_of B (utcnow E n) c # requests_for B E (Suc n) cs"
proof -
  have "[n..<n + length (c # cs)] = n # [Suc n..<Suc n + length cs]"
    by (simp add: upt_rec)
  then show ?thesis by (simp add: requests_for_def)
qed

lemma requests_for_sources:
  "r \<in> set (requests_for B E n changes) \<Longrightarrow> \<exists>c \<in> set changes. \<exists>now. r = request_of B now c"
  unfolding requests_for_def by (auto dest: set_zip_rightD)

lemma requests_for_each:
  "c \<in> set changes \<Longrightarrow> \<exists>r \<in> set (requests_for B E n changes). \<exists>now. r = request_of B now c"
proof (induction changes arbitrary: n)
  case Nil
  then show ?case by simp
next
  case (Cons a changes)
  then show ?case by (auto simp: requests_for_Cons)
qed

lemma parse_item_update:
  "parse_item B item = Inr i \<Longrightarrow> parse_dynamo_value B v = Inr pv \<Longrightarrow>
   parse_item B (AList.update k v item) = Inr (AList.update k pv i)"
proof (induction item arbitrary: i)
  case Nil
  then show ?case by simp
next
  case (Cons kv item)
  then show ?case
    by (cases kv) (auto split: sum.splits)
qed

lemma parse_item_set_attributes:
  "parse_item B item = Inr i \<Longrightarrow>
   parse_item B (set_attributes [(''S'', v)] [(''S'', u)] item) = Inr (set_vial v u i)"
  unfolding set_attributes_def set_vial_def
  by (intro parse_item_update) simp_all

lemma change_request:
  assumes sk: "string_keyed it" and pi: "parse_item B it = Inr i"
    and cf: "change_for B i = Inr (Some c, line)"
  shows "\<exists>pk sk v. raw_key it = (Some pk, Some sk) \<and> correct_vial c = PStr v \<and>
           (\<forall>now. request_of B now c = (pk, sk, [(''S'', PStr v)], [(''S'', PStr (now @ ''Z''))]))"
proof -
  note f = change_for_Some [OF cf]
  from string_keyed_parsed [OF sk pi] obtain p s where
    k: "raw_key it = (Some [(''S'', PStr p)], Some [(''S'', PStr s)])"
    and "map_of i ''PK'' = Some (PStr p)" "map_of i ''SK'' = Some (PStr s)" by blast
  with f have c: "PK c = PStr p" "SK c = PStr s" by simp_all
  from f policy_is_string obtain v where v: "correct_vial c = PStr v" by blast
  from c v have "\<forall>now. request_of B now c =
      ([(''S'', PStr p)], [(''S'', PStr s)], [(''S'', PStr v)], [(''S'', PStr (now @ ''Z''))])"
    by (simp add: request_of_parts)
  with k v show ?thesis by blast
qed

lemma change_source:
  assumes sk: "\<forall>it \<in> set its. string_keyed it"
    and p: "parse_items B its = Inr injections"
    and cc: "calculate_changes B injections = Inr (changes, needed)"
    and c: "c \<in> set changes"
  shows "\<exists>it \<in> set its. \<exists>i p s line. parse_item B it = Inr i \<and>
        change_for B i = Inr (Some c, line) \<and>
        raw_key it = (Some [(''S'', PStr p)], Some [(''S'', PStr s)]) \<and>
        PK c = PStr p \<and> SK c = PStr s \<and>
        get_correct_vial_for_date B (dict_get i ''timestamp'' (PStr [])) = Inr (correct_vial c) \<and>
        correct_vial c \<noteq> PNone"
proof -
  from calculate_changes_sources [OF cc c] obtain i out where
    i: "i \<in> set injections" and cf: "change_for B i = Inr (Some c, out)" by blast
  note f = change_for_Some [OF cf]
  from parse_items_backward [OF p i] obtain it where
    it: "it \<in> set its" and pi: "parse_item B it = Inr i" by auto
  from string_keyed_parsed [OF _ pi] sk it obtain p s where
    k: "raw_key it = (Some [(''S'', PStr p)], Some [(''S'', PStr s)])"
    and "map_of i ''PK'' = Some (PStr p)" "map_of i ''SK'' = Some (PStr s)" by blast
  with f have "PK c = PStr p" "SK c = PStr s" by simp_all
  with it pi k f cf show ?thesis by blast
qed

lemma requests_match_sources:
  assumes sk: "\<forall>it \<in> set its. string_keyed it"
    and p: "parse_items B its = Inr injections"
    and cc: "calculate_changes B injections = Inr (changes, needed)"
    and r: "r \<in> set (requests_for B E n changes)"
    and m: "matches x r"
  shows "raw_key x \<in> raw_key ` set its"
proof -
  from requests_for_sources [OF r] obtain c now where
    c: "c \<in> set changes" and eq: "r = request_of B now c" by blast
  from change_source [OF sk p cc c] obtain it p s where it: "it \<in> set its"
    and k: "raw_key it = (Some [(''S'', PStr p)], Some [(''S'', PStr s)])"
    and c2: "PK c = PStr p" "SK c = PStr s" by blast
  from m eq c2 k have "raw_key x = raw_key it"
    by (simp add: matches_def request_of_parts)
  with it show ?thesis by blast
qed

lemma item_after_Cons: "item_after (r # rs) item = item_after rs (update_one item r)"
  by (simp add: item_after_def)

lemma applied_items:
  assumes "distinct (map raw_key its)"
    and "\<forall>it \<in> set its. string_keyed it"
    and "parse_items B its = Inr injections"
    and "calculate_changes B injections = Inr (changes, needed)"
  shows "parse_items B (map (item_after (requests_for B E n changes)) its) =
           Inr (applied B E n injections)"
  using assms
proof (induction its arbitrary: injections changes needed n)
  case Nil
  then show ?case by auto
next
  case (Cons it its)
  from Cons.prems(3) obtain i injs where pi: "parse_item B it = Inr i"
    and ps: "parse_items B its = Inr injs" and inj: "injections = i # injs"
    by (auto split: sum.splits)
  from Cons.prems(4) inj obtain co line cs nd where cf: "change_for B i = Inr (co, line)"
    and cc: "calculate_changes B injs = Inr (cs, nd)"
    and ch: "changes = (case co of None \<Rightarrow> cs | Some c \<Rightarrow> c # cs)"
    by (auto split: sum.splits prod.splits)
  from Cons.prems(1) have d: "distinct (map raw_key its)"
    and fresh: "raw_key it \<notin> raw_key ` set its" by simp_all
  from Cons.prems(2) have sk: "\<forall>it \<in> set its. string_keyed it" and skit: "string_keyed it"
    by simp_all
  have rest: "\<forall>r \<in> set (requests_for B E m cs). \<not> matches x r"
    if "raw_key x = raw_key it" for x m
    using requests_match_sources [OF sk ps cc] fresh that by metis
  show ?case
  proof (cases co)
    case None
    with ch have changes: "changes = cs" by simp
    from rest [of it n] have "item_after (requests_for B E n cs) it = it"
      using item_after_untouched by blast
    with Cons.IH [OF d sk ps cc, of n] pi cf None show ?thesis
      unfolding changes inj by simp
  next
    case (Some c)
    with ch have changes: "changes = c # cs" by simp
    from Some cf have cf': "change_for B i = Inr (Some c, line)" by simp
    from change_request [OF skit pi cf'] obtain pk sk' v where
      k: "raw_key it = (Some pk, Some sk')" and v: "correct_vial c = PStr v"
      and r0: "request_of B (utcnow E n) c =
                 (pk, sk', [(''S'', PStr v)], [(''S'', PStr (utcnow E n @ ''Z''))])"
      by blast
    let ?rs = "requests_for B E (Suc n) cs"
    let ?it' = "set_attributes [(''S'', PStr v)] [(''S'', PStr (utcnow E n @ ''Z''))] it"
    have first: "update_one it (request_of B (utcnow E n) c) = ?it'"
      unfolding r0 using k by simp
    have "\<forall>r \<in> set ?rs. \<not> matches ?it' r"
      using rest [of ?it' "Suc n"] by simp
    then have it': "item_after ?rs ?it' = ?it'"
      using item_after_untouched by blast
    have others: "update_one x (request_of B (utcnow E n) c) = x" if "x \<in> set its" for x
    proof -
      from fresh k that have "raw_key x \<noteq> (Some pk, Some sk')" by (metis image_eqI)
      then show ?thesis unfolding r0 by simp
    qed
    then have m1: "map (item_after (requests_for B E n changes)) its = map (item_after ?rs) its"
      unfolding changes by (simp add: requests_for_Cons item_after_Cons)
    have m2: "item_after (requests_for B E n changes) it = ?it'"
      unfolding changes by (simp add: requests_for_Cons item_after_Cons first it')
    have "parse_items B (map (item_after (requests_for B E n changes)) (it # its)) =
          parse_items B (?it' # map (item_after ?rs) its)"
      by (simp only: list.map m1 m2)
    also have "\<dots> = Inr (set_vial (PStr v) (PStr (utcnow E n @ ''Z'')) i # applied B E (Suc n) injs)"
      using Cons.IH [OF d sk ps cc, of "Suc n"]
        parse_item_set_attributes [OF pi, of "PStr v" "PStr (utcnow E n @ ''Z'')"]
      by simp
    also have "\<dots> = Inr (applied B E n injections)"
      unfolding inj using cf' v by simp
    finally show ?thesis .
  qed
qed

lemma applied_unchanged:
  "calculate_changes B injections = Inr ([], needed) \<Longrightarrow> applied B E n injections = injections"
proof (induction injections arbitrary: needed)
  case Nil
  then show ?case by simp
next
  case (Cons i injections)
  then show ?case
    by (auto split: sum.splits prod.splits option.splits)
qed

lemma map_of_set_vial:
  "map_of (set_vial vial updated injection) k =
     (if k = ''updatedAt'' then Some updated
      else if k = ''vialId'' then Some vial else map_of injection k)"
  by (simp add: set_vial_def update_conv')

lemma applied_pairs:
  "list_all2 (\<lambda>i i'. dict_get i' ''timestamp'' (PStr []) = dict_get i ''timestamp'' (PStr []) \<and>
                     (\<not> py_truthy B (dict_get i ''timestamp'' (PStr [])) \<longrightarrow> i' = i))
     injections (applied B E n injections)"
proof (induction injections arbitrary: n)
  case Nil
  then show ?case by simp
next
  case (Cons i injections)
  show ?case
  proof (cases "py_truthy B (dict_get i ''timestamp'' (PStr []))")
    case False
    from change_for_falsy [OF this] Cons.IH [of n] show ?thesis by simp
  next
    case True
    with Cons.IH [of n] Cons.IH [of "Suc n"] show ?thesis
      by (auto simp: dict_get_def map_of_set_vial split: sum.splits prod.splits option.splits)
  qed
qed

lemma reconciled_items:
  fixes st :: "'f raw_item list"
  assumes wk: "well_keyed st"
    and p: "parse_items B (filter (\<lambda>item. map_of item ''entityType'' = Some [(''S'', PStr ''INJECTION'')]) st)
              = Inr injections"
    and cc: "calculate_changes B injections = Inr (changes, needed)"
    and H1: "\<forall>r \<in> set rs. \<exists>c \<in> set changes. \<exists>now. r = request_of B now c"
    and H2: "\<forall>c \<in> set changes. \<exists>r \<in> set rs. \<exists>now. r = request_of B now c"
  shows "foldl put_update st rs = map (item_after rs) st \<and>
     (\<exists>injections'.
        parse_items B (filter (\<lambda>item. map_of item ''entityType'' = Some [(''S'', PStr ''INJECTION'')])
                         (map (item_after rs) st)) = Inr injections' \<and>
        (\<forall>i \<in> set injections'. \<exists>cor.
           get_correct_vial_for_date B (dict_get i ''timestamp'' (PStr [])) = Inr cor \<and>
           (cor \<noteq> PNone \<longrightarrow> dict_get i ''vialId'' PNone = cor)))"
proof -
  let ?inj = "\<lambda>item :: 'f raw_item. map_of item ''entityType'' = Some [(''S'', PStr ''INJECTION'')]"
  let ?ts = "\<lambda>i :: 'f pydict. dict_get i ''timestamp'' (PStr [])"
  from wk have d: "distinct (map raw_key st)" and sk: "\<forall>it \<in> set st. string_keyed it"
    by (simp_all add: well_keyed_def list_all_iff)
  from d have inj_key: "inj_on raw_key (set st)"
    by (simp add: distinct_map)

  from sk have skf: "\<forall>it \<in> set (filter ?inj st). string_keyed it" by simp
  have src: "\<exists>it \<in> set st. \<exists>i p s. parse_item B it = Inr i \<and>
        raw_key it = (Some [(''S'', PStr p)], Some [(''S'', PStr s)]) \<and>
        PK c = PStr p \<and> SK c = PStr s \<and>
        get_correct_vial_for_date B (?ts i) = Inr (correct_vial c) \<and> correct_vial c \<noteq> PNone"
    if c: "c \<in> set changes" for c
  proof -
    from change_source [OF skf p cc c] obtain it i p s where "it \<in> set (filter ?inj st)"
      "parse_item B it = Inr i"
      "raw_key it = (Some [(''S'', PStr p)], Some [(''S'', PStr s)])"
      "PK c = PStr p" "SK c = PStr s"
      "get_correct_vial_for_date B (?ts i) = Inr (correct_vial c)" "correct_vial c \<noteq> PNone"
      by blast
    then show ?thesis by auto
  qed

  have keys: "\<forall>(pk, sk, vial, updated) \<in> set rs. (Some pk, Some sk) \<in> raw_key ` set st"
  proof (clarify)
    fix pk sk vial updated
    assume r: "(pk, sk, vial, updated) \<in> set rs"
    with H1 obtain c now where c: "c \<in> set changes"
      and eq: "(pk, sk, vial, updated) = request_of B now c" by blast
    from src [OF c] obtain it p s where it: "it \<in> set st"
      and k: "raw_key it = (Some [(''S'', PStr p)], Some [(''S'', PStr s)])"
      and c2: "PK c = PStr p" "SK c = PStr s" by blast
    from eq c2 have "pk = [(''S'', PStr p)]" "sk = [(''S'', PStr s)]"
      by (simp_all add: request_of_parts)
    with k have "raw_key it = (Some pk, Some sk)" by simp
    with it show "(Some pk, Some sk) \<in> raw_key ` set st"
      by (metis image_eqI)
  qed
  have first: "foldl put_update st rs = map (item_after rs) st"
    using foldl_put_update_map [OF d keys] .

  have item: "\<exists>i'. parse_item B (item_after rs it) = Inr i' \<and>
        (\<exists>cor. get_correct_vial_for_date B (?ts i') = Inr cor \<and>
               (cor \<noteq> PNone \<longrightarrow> dict_get i' ''vialId'' PNone = cor))"
    if it: "it \<in> set st" and isinj: "?inj it" for it
  proof -
    from it isinj have "it \<in> set (filter ?inj st)" by simp
    from parse_items_forward [OF p this] obtain i where
      i: "i \<in> set injections" and pi: "parse_item B it = Inr i" by blast
    from calculate_changes_each [OF cc i] obtain co out where
      cf: "change_for B i = Inr (co, out)" and mem: "\<forall>ch. co = Some ch \<longrightarrow> ch \<in> set changes"
      by blast
    from string_keyed_parsed [OF _ pi] sk it obtain p s where
      k: "raw_key it = (Some [(''S'', PStr p)], Some [(''S'', PStr s)])"
      and ipk: "map_of i ''PK'' = Some (PStr p)" and isk: "map_of i ''SK'' = Some (PStr s)"
      by blast
    obtain cor where pol: "get_correct_vial_for_date B (?ts i) = Inr cor"
    proof (cases co)
      case None
      with change_for_None cf that show ?thesis by blast
    next
      case (Some ch)
      with change_for_Some cf that show ?thesis by blast
    qed
    have A: "vial_of r = [(''S'', cor)]" if r: "r \<in> set rs" and m: "matches it r" for r
    proof -
      from H1 r obtain c now where c: "c \<in> set changes" and eq: "r = request_of B now c"
        by blast
      from src [OF c] obtain it2 i2 p2 s2 where it2: "it2 \<in> set st"
        and pi2: "parse_item B it2 = Inr i2"
        and k2: "raw_key it2 = (Some [(''S'', PStr p2)], Some [(''S'', PStr s2)])"
        and c2: "PK c = PStr p2" "SK c = PStr s2"
        and pol2: "get_correct_vial_for_date B (?ts i2) = Inr (correct_vial c)"
        and nn: "correct_vial c \<noteq> PNone" by blast
      from m eq c2 k2 have "raw_key it = raw_key it2"
        by (simp add: matches_def request_of_parts)
      with inj_key it it2 have "it = it2" by (simp add: inj_on_def)
      with pi pi2 have "i2 = i" by simp
      with pol pol2 have cv: "correct_vial c = cor" by simp
      from policy_is_string [OF pol2 nn] obtain v where "correct_vial c = PStr v" by blast
      with cv eq show ?thesis by (auto simp: vial_of_def request_of_parts)
    qed
    have vals: "\<forall>(k, v) \<in> set (item_after rs it). \<exists>pv. parse_dynamo_value B v = Inr pv"
    proof (clarify)
      fix k v assume "(k, v) \<in> set (item_after rs it)"
      from item_after_values [OF this] consider (old) "(k, v) \<in> set it"
        | (new) r where "r \<in> set rs" "v = vial_of r \<or> v = updated_of r" by blast
      then show "\<exists>pv. parse_dynamo_value B v = Inr pv"
      proof cases
        case old
        with parse_item_values [OF pi] show ?thesis by blast
      next
        case new
        from H1 new(1) obtain c now where c: "c \<in> set changes" and eq: "r = request_of B now c"
          by blast
        from src [OF c] obtain i2 where
          pol2: "get_correct_vial_for_date B (?ts i2) = Inr (correct_vial c)"
          and nn: "correct_vial c \<noteq> PNone" by blast
        from policy_is_string [OF pol2 nn] obtain x where "correct_vial c = PStr x" by blast
        with new(2) eq show ?thesis
          by (auto simp: vial_of_def updated_of_def request_of_parts)
      qed
    qed
    from parse_item_total [OF vals] obtain i' where pi': "parse_item B (item_after rs it) = Inr i'"
      by blast
    have ts: "?ts i' = ?ts i"
      using parse_item_map_of [OF pi', of "''timestamp''"] parse_item_map_of [OF pi, of "''timestamp''"]
        map_of_item_after_other [of "''timestamp''" rs it]
      by (simp add: dict_get_def)
    have cur: "dict_get i' ''vialId'' PNone = cor" if nn: "cor \<noteq> PNone"
    proof (cases "\<exists>r \<in> set rs. matches it r")
      case True
      from item_after_vial [OF True, of "[(''S'', cor)]"] A
      have "map_of (item_after rs it) ''vialId'' = Some [(''S'', cor)]" by blast
      with parse_item_map_of [OF pi', of "''vialId''"] show ?thesis
        by (simp add: dict_get_def)
    next
      case False
      then have "item_after rs it = it" using item_after_untouched by blast
      with pi pi' have same: "i' = i" by simp
      have "\<not> needs_change B (dict_get i ''vialId'' PNone) cor"
      proof
        assume nc: "needs_change B (dict_get i ''vialId'' PNone) cor"
        show False
        proof (cases co)
          case None
          with change_for_None cf pol nn nc show ?thesis by fastforce
        next
          case (Some ch)
          with mem have ch: "ch \<in> set changes" by simp
          from Some cf have "change_for B i = Inr (Some ch, out)" by simp
          from change_for_Some [OF this] ipk isk have "PK ch = PStr p" "SK ch = PStr s"
            by simp_all
          moreover from H2 ch obtain r now where "r \<in> set rs" "r = request_of B now ch"
            by blast
          ultimately have "r \<in> set rs" "matches it r"
            using k by (simp_all add: matches_def request_of_parts)
          with False show ?thesis by blast
        qed
      qed
      from needs_change_not_settled [OF this] same show ?thesis by simp
    qed
    from pi' pol ts cur show ?thesis by auto
  qed

  have et: "?inj (item_after rs it) = ?inj it" for it
    by (simp add: map_of_item_after_other)
  have "filter ?inj (map (item_after rs) st) = map (item_after rs) (filter ?inj st)"
    by (simp add: filter_map comp_def et)
  moreover have "\<exists>injections'. parse_items B (map (item_after rs) (filter ?inj st)) = Inr injections' \<and>
       (\<forall>i \<in> set injections'. \<exists>cor.
           get_correct_vial_for_date B (?ts i) = Inr cor \<and>
           (cor \<noteq> PNone \<longrightarrow> dict_get i ''vialId'' PNone = cor))"
    using parse_items_map [of "filter ?inj st" B "item_after rs"
        "\<lambda>i. \<exists>cor. get_correct_vial_for_date B (?ts i) = Inr cor \<and>
           (cor \<noteq> PNone \<longrightarrow> dict_get i ''vialId'' PNone = cor)"] item
    by simp
  ultimately show ?thesis using first by simp
qed

lemma item_after_Nil [simp]: "item_after [] item = item"
  by (simp add: item_after_def)

lemma map_item_after_Nil [simp]: "map (item_after []) table_items = table_items"
  by (induction table_items) simp_all

lemma foldl_successful_updates:
  "\<forall>n. failure E n = None \<Longrightarrow>
   foldl (\<lambda>its (k, c). if failure E k = None
                        then put_update its (request_of B (utcnow E k) c) else its) st calls =
   foldl put_update st (map (\<lambda>(k, c). request_of B (utcnow E k) c) calls)"
  by (induction calls arbitrary: st) (auto simp: case_prod_unfold)

lemma apply_reconciles:
  assumes wk: "well_keyed (items dynamodb)"
    and p: "parse_items B (scan_all_items dynamodb ''INJECTION'') = Inr injections"
    and cc: "calculate_changes B injections = Inr (changes, needed)"
    and nf: "\<forall>n. failure E n = None"
  shows "\<exists>out'. apply_changes B E changes dynamodb 0 0 out =
           (dynamodb\<lparr>items := map (item_after (requests_for B E (length (update_calls dynamodb)) changes))
                                (items dynamodb),
                      update_calls := update_calls dynamodb @
                                requests_for B E (length (update_calls dynamodb)) changes\<rparr>,
            Inr (length changes, 0, out'))"
    and "parse_items B
           (scan_all_items
              (dynamodb\<lparr>items := map (item_after (requests_for B E (length (update_calls dynamodb)) changes))
                                   (items dynamodb),
                         update_calls := update_calls dynamodb @
                                   requests_for B E (length (update_calls dynamodb)) changes\<rparr>)
              ''INJECTION'') =
           Inr (applied B E (length (update_calls dynamodb)) injections)"
    and "\<forall>i \<in> set (applied B E (length (update_calls dynamodb)) injections). \<exists>cor.
           get_correct_vial_for_date B (dict_get i ''timestamp'' (PStr [])) = Inr cor \<and>
           (cor \<noteq> PNone \<longrightarrow> dict_get i ''vialId'' PNone = cor)"
proof -
  note p' = p [unfolded scan_all_items_def]
  let ?inj = "\<lambda>item :: 'a raw_item. map_of item ''entityType'' = Some [(''S'', PStr ''INJECTION'')]"
  let ?n = "length (update_calls dynamodb)"
  let ?rs = "requests_for B E ?n changes"
  from wk have d: "distinct (map raw_key (items dynamodb))"
    and sk: "\<forall>it \<in> set (items dynamodb). string_keyed it"
    by (simp_all add: well_keyed_def list_all_iff)
  from d have df: "distinct (map raw_key (filter ?inj (items dynamodb)))"
    by (rule distinct_map_filter)
  from sk have skf: "\<forall>it \<in> set (filter ?inj (items dynamodb)). string_keyed it" by simp
  have str: "\<forall>c \<in> set changes. isinstance_str (SK c)"
  proof
    fix c assume "c \<in> set changes"
    from change_source [OF skf p' cc this] show "isinstance_str (SK c)" by auto
  qed
  have H1: "\<forall>r \<in> set ?rs. \<exists>c \<in> set changes. \<exists>now. r = request_of B now c"
    using requests_for_sources by blast
  have H2: "\<forall>c \<in> set changes. \<exists>r \<in> set ?rs. \<exists>now. r = request_of B now c"
    using requests_for_each by blast
  note rec = reconciled_items [OF wk p' cc H1 H2]
  from rec have fold: "foldl put_update (items dynamodb) ?rs = map (item_after ?rs) (items dynamodb)"
    by simp
  have et: "?inj (item_after ?rs it) = ?inj it" for it
    by (simp add: map_of_item_after_other)
  have commute: "filter ?inj (map (item_after ?rs) (items dynamodb)) =
                 map (item_after ?rs) (filter ?inj (items dynamodb))"
    by (simp add: filter_map comp_def et)
  have all: "filter (\<lambda>k. failure E k = None) [?n..<?n + length changes] = [?n..<?n + length changes]"
    and none: "filter (\<lambda>k. failure E k \<noteq> None) [?n..<?n + length changes] = []"
    using nf by simp_all
  from apply_changes_general [OF str, of B E dynamodb 0 0 out]
  show "\<exists>out'. apply_changes B E changes dynamodb 0 0 out =
           (dynamodb\<lparr>items := map (item_after ?rs) (items dynamodb),
                      update_calls := update_calls dynamodb @ ?rs\<rparr>,
            Inr (length changes, 0, out'))"
    unfolding all none foldl_successful_updates [OF nf]
    unfolding requests_for_def [symmetric] fold by simp
  from applied_items [OF df skf p' cc, of E ?n]
  show parsed: "parse_items B
           (scan_all_items
              (dynamodb\<lparr>items := map (item_after ?rs) (items dynamodb),
                         update_calls := update_calls dynamodb @ ?rs\<rparr>) ''INJECTION'') =
           Inr (applied B E ?n injections)"
    by (simp add: scan_all_items_def commute)
  from rec obtain injections' where
    "parse_items B (filter ?inj (map (item_after ?rs) (items dynamodb))) = Inr injections'"
    and s: "\<forall>i \<in> set injections'. \<exists>cor.
           get_correct_vial_for_date B (dict_get i ''timestamp'' (PStr [])) = Inr cor \<and>
           (cor \<noteq> PNone \<longrightarrow> dict_get i ''vialId'' PNone = cor)"
    by blast
  with parsed have "injections' = applied B E ?n injections"
    by (simp add: scan_all_items_def)
  with s show "\<forall>i \<in> set (applied B E ?n injections). \<exists>cor.
           get_correct_vial_for_date B (dict_get i ''timestamp'' (PStr [])) = Inr cor \<and>
           (cor \<noteq> PNone \<longrightarrow> dict_get i ''vialId'' PNone = cor)"
    by simp
qed

lemma live_run_store:
  assumes wk: "well_keyed (items dynamodb)"
    and live: "\<not> dry_run a"
    and nf: "\<forall>n. failure E n = None"
    and ok: "snd (main B E a dynamodb) = Inr out"
    and p: "parse_items B (scan_all_items dynamodb ''INJECTION'') = Inr injections"
  shows "\<exists>changes needed. calculate_changes B injections = Inr (changes, needed) \<and>
     fst (main B E a dynamodb) =
       dynamodb\<lparr>items := map (item_after (requests_for B E (length (update_calls dynamodb)) changes))
                            (items dynamodb),
                  update_calls := update_calls dynamodb @
                            requests_for B E (length (update_calls dynamodb)) changes\<rparr>"
proof (cases rule: main_cases [of B E a dynamodb])
  case (aborted e)
  with ok show ?thesis by simp
next
  case (planned injections2 vials current changes needed)
  with p have same: "injections2 = injections" by simp
  note m = main_planned [OF planned, of E a]
  note cc = planned(4) [unfolded same]
  show ?thesis
  proof (cases "changes = []")
    case True
    with m have "fst (main B E a dynamodb) = dynamodb" by simp
    with True cc show ?thesis by simp
  next
    case False
    show ?thesis
    proof (cases "expected_distribution B injections2")
      case (Inl e)
      with m False have "main B E a dynamodb = (dynamodb, Inl e)" by simp
      with ok show ?thesis by simp
    next
      case (Inr expected)
      from apply_reconciles(1) [OF wk p cc nf,
          of "printed_plan B a injections2 vials current needed @
              printed_expected B changes expected @ [CHR 0x0A # ''Applying changes...'']"]
      obtain out' where ap: "apply_changes B E changes dynamodb 0 0
          (printed_plan B a injections2 vials current needed @
           printed_expected B changes expected @ [CHR 0x0A # ''Applying changes...'']) =
          (dynamodb\<lparr>items := map (item_after (requests_for B E (length (update_calls dynamodb)) changes))
                                (items dynamodb),
                      update_calls := update_calls dynamodb @
                                requests_for B E (length (update_calls dynamodb)) changes\<rparr>,
           Inr (length changes, 0, out'))"
        by blast
      from m False Inr live ap have "fst (main B E a dynamodb) =
          dynamodb\<lparr>items := map (item_after (requests_for B E (length (update_calls dynamodb)) changes))
                                (items dynamodb),
                    update_calls := update_calls dynamodb @
                                requests_for B E (length (update_calls dynamodb)) changes\<rparr>"
        by simp
      with cc show ?thesis by blast
    qed
  qed
qed

text \<open>The live run on the sample table, in which every update succeeds.\<close>

lemma sample_live_run:
  "snd (main whole sample_env live_args sample_store) =
     Inr [''Connecting to DynamoDB (profile: reta-admin, region: eu-west-1)...'',
          ''Fetching all injections...'', ''  Found 3 injections'',
          ''Fetching all vials...'', ''  Found 1 vials'',
          rule60, ''Current vial distribution:'', line60,
          ''  NULL/unassigned: 1 shots, 2.0mg total'',
          ''    - 2025-09-20: 2.0mg'',
          ''  vial_20240805_1: 1 shots, 2.0mg total'',
          ''    - 2025-08-10: 2.0mg'',
          ''  vial_20241029_3: 1 shots, 4.0mg total [WARNING] SHOULD NOT HAVE SHOTS!'',
          ''    - 2025-11-05: 4.0mg'',
          rule60, ''Changes needed:'', line60,
          ''  2025-11-05 (4.0mg): vial_20241029_3 -> vial_20241029_1'',
          ''  2025-09-20 (2.0mg): NULL -> vial_20240805_2'',
          CHR 0x0A # ''Total changes: 2'',
          rule60, ''Expected distribution after fix:'', line60,
          ''  vial_20240805_1: 1 shots, 2.0mg total'',
          ''  vial_20240805_2: 1 shots, 2.0mg total'',
          ''  vial_20241029_1: 1 shots, 4.0mg total'',
          CHR 0x0A # ''Applying changes...'', ''  Updating INJ#a...'',
          ''    [OK] Updated to vial_20241029_1'', ''  Updating INJ#b...'',
          ''    [OK] Updated to vial_20240805_2'',
          CHR 0x0A # ''Done! Updated 2 injections, 0 errors'']"
  by code_simp

lemma sample_preconditions:
  "well_keyed (items sample_store)" "\<not> dry_run live_args" "\<forall>n. failure sample_env n = None"
  by (code_simp, code_simp, simp add: sample_env_def)

text \<open>
  C4. Take a table that is well keyed, the injections scanned from it and the change-set
  the planner computes for them, and apply the change-set with no update failing. The
  apply loop ends normally with every change counted as a success; it leaves the table
  with each item updated by the requests for its key, and with one request recorded for
  each change; the injections scanned from that table are the injections scanned before
  with the change-set applied, each changed injection's \<^verbatim>\<open>vialId\<close> set to its change
  record's correct vial and every other injection as it was; and the planner, run on
  them, computes the empty change-set.
\<close>

theorem plan_after_apply_is_empty:
  assumes "well_keyed (items dynamodb)"
    and "parse_items B (scan_all_items dynamodb ''INJECTION'') = Inr injections"
    and "calculate_changes B injections = Inr (changes, needed)"
    and "\<forall>n. failure E n = None"
  shows "\<exists>out' needed'.
        apply_changes B E changes dynamodb 0 0 out =
          (dynamodb\<lparr>items := map (item_after (requests_for B E (length (update_calls dynamodb)) changes))
                               (items dynamodb),
                     update_calls := update_calls dynamodb @
                               requests_for B E (length (update_calls dynamodb)) changes\<rparr>,
           Inr (length changes, 0, out')) \<and>
        parse_items B (scan_all_items (fst (apply_changes B E changes dynamodb 0 0 out)) ''INJECTION'') =
          Inr (applied B E (length (update_calls dynamodb)) injections) \<and>
        calculate_changes B (applied B E (length (update_calls dynamodb)) injections) =
          Inr ([], needed')"
proof -
  note r = apply_reconciles [OF assms]
  from r(1) [of out] obtain out' where
    ap: "apply_changes B E changes dynamodb 0 0 out =
          (dynamodb\<lparr>items := map (item_after (requests_for B E (length (update_calls dynamodb)) changes))
                               (items dynamodb),
                     update_calls := update_calls dynamodb @
                               requests_for B E (length (update_calls dynamodb)) changes\<rparr>,
           Inr (length changes, 0, out'))"
    by blast
  from r(3) have "\<forall>i \<in> set (applied B E (length (update_calls dynamodb)) injections).
      \<exists>out. change_for B i = Inr (None, out)"
    using settled_change_for by blast
  from calculate_changes_none [OF this] obtain needed' where
    "calculate_changes B (applied B E (length (update_calls dynamodb)) injections) = Inr ([], needed')"
    by blast
  with ap r(2) show ?thesis by simp
qed

theorem plan_after_apply_is_empty_witness:
  "well_keyed (items sample_store) \<and>
   parse_items whole (scan_all_items sample_store ''INJECTION'') = Inr sample_injections \<and>
   calculate_changes whole sample_injections =
     Inr (sample_changes,
          [''  2025-11-05 (4.0mg): vial_20241029_3 -> vial_20241029_1'',
           ''  2025-09-20 (2.0mg): NULL -> vial_20240805_2'']) \<and>
   (\<forall>n. failure sample_env n = None) \<and>
   apply_changes whole sample_env sample_changes sample_store 0 0 [] =
     (sample_applied_store,
      Inr (2, 0, [''  Updating INJ#a...'', ''    [OK] Updated to vial_20241029_1'',
                  ''  Updating INJ#b...'', ''    [OK] Updated to vial_20240805_2''])) \<and>
   sample_store\<lparr>items := map (item_after (requests_for whole sample_env
                                             (length (update_calls sample_store)) sample_changes))
                             (items sample_store),
                 update_calls := update_calls sample_store @
                             requests_for whole sample_env
                               (length (update_calls sample_store)) sample_changes\<rparr> =
     sample_applied_store \<and>
   length sample_changes = 2 \<and>
   parse_items whole (scan_all_items sample_applied_store ''INJECTION'') = Inr sample_applied \<and>
   applied whole sample_env (length (update_calls sample_store)) sample_injections =
     sample_applied \<and>
   calculate_changes whole sample_applied = Inr ([], []) \<and>
   (\<exists>out' needed'.
      apply_changes whole sample_env sample_changes sample_store 0 0 [] =
        (sample_store\<lparr>items := map (item_after (requests_for whole sample_env
                                                  (length (update_calls sample_store)) sample_changes))
                                  (items sample_store),
                      update_calls := update_calls sample_store @
                                  requests_for whole sample_env
                                    (length (update_calls sample_store)) sample_changes\<rparr>,
         Inr (length sample_changes, 0, out')) \<and>
      parse_items whole
        (scan_all_items (fst (apply_changes whole sample_env sample_changes sample_store 0 0 []))
           ''INJECTION'') =
        Inr (applied whole sample_env (length (update_calls sample_store)) sample_injections) \<and>
      calculate_changes whole
        (applied whole sample_env (length (update_calls sample_store)) sample_injections) =
        Inr ([], needed'))"
proof -
  have p: "parse_items whole (scan_all_items sample_store ''INJECTION'') = Inr sample_injections"
    by code_simp
  have cc: "calculate_changes whole sample_injections =
     Inr (sample_changes,
          [''  2025-11-05 (4.0mg): vial_20241029_3 -> vial_20241029_1'',
           ''  2025-09-20 (2.0mg): NULL -> vial_20240805_2''])"
    by code_simp
  have ap: "apply_changes whole sample_env sample_changes sample_store 0 0 [] =
     (sample_applied_store,
      Inr (2, 0, [''  Updating INJ#a...'', ''    [OK] Updated to vial_20241029_1'',
                  ''  Updating INJ#b...'', ''    [OK] Updated to vial_20240805_2'']))"
    by code_simp
  have st: "sample_store\<lparr>items := map (item_after (requests_for whole sample_env
                                             (length (update_calls sample_store)) sample_changes))
                             (items sample_store),
                 update_calls := update_calls sample_store @
                             requests_for whole sample_env
                               (length (update_calls sample_store)) sample_changes\<rparr> =
     sample_applied_store"
    by code_simp
  have len: "length sample_changes = 2"
    by code_simp
  have p': "parse_items whole (scan_all_items sample_applied_store ''INJECTION'') = Inr sample_applied"
    by code_simp
  have a: "applied whole sample_env (length (update_calls sample_store)) sample_injections =
     sample_applied"
    by code_simp
  have cc': "calculate_changes whole sample_applied = Inr ([], [])"
    by code_simp
  from plan_after_apply_is_empty [OF sample_preconditions(1) p cc sample_preconditions(3), of "[]"]
    sample_preconditions p cc ap st len p' a cc'
  show ?thesis by (simp only: simp_thms)
qed

text \<open>
  C5, as the code has it. Take a table that is well keyed and a live run on it that ends
  normally and in which no update fails. The injections scanned from the table the run
  leaves are the injections scanned before it with the planner's change-set applied, in
  the same order. Every injection whose timestamp is a string that is not empty is then
  associated with a vial: the vial the policy gives for its timestamp, which is not a
  dry-stock vial. An injection whose timestamp is empty, null or missing is skipped: it
  is left exactly as it was, with the association it had or with none.
\<close>

theorem live_run_assigns_policy_vials:
  assumes "well_keyed (items dynamodb)"
    and "\<not> dry_run a"
    and "\<forall>n. failure E n = None"
    and "snd (main B E a dynamodb) = Inr out"
    and "parse_items B (scan_all_items dynamodb ''INJECTION'') = Inr injections"
  shows "parse_items B (scan_all_items (fst (main B E a dynamodb)) ''INJECTION'') =
           Inr (applied B E (length (update_calls dynamodb)) injections) \<and>
         list_all2
           (\<lambda>i i'.
              dict_get i' ''timestamp'' (PStr []) = dict_get i ''timestamp'' (PStr []) \<and>
              (\<forall>t. dict_get i ''timestamp'' (PStr []) = PStr t \<and> t \<noteq> [] \<longrightarrow>
                 (\<exists>v. dict_get i' ''vialId'' PNone = PStr v \<and>
                      get_correct_vial_for_date B (PStr t) = Inr (PStr v) \<and>
                      v \<notin> set DRY_STOCK_VIALS)) \<and>
              (dict_get i ''timestamp'' (PStr []) = PStr [] \<or>
               dict_get i ''timestamp'' (PStr []) = PNone \<longrightarrow> i' = i))
           injections (applied B E (length (update_calls dynamodb)) injections)"
proof -
  let ?n = "length (update_calls dynamodb)"
  let ?ts = "\<lambda>i :: 'a pydict. dict_get i ''timestamp'' (PStr [])"
  from live_run_store [OF assms] obtain changes needed where
    cc: "calculate_changes B injections = Inr (changes, needed)"
    and st: "fst (main B E a dynamodb) =
       dynamodb\<lparr>items := map (item_after (requests_for B E ?n changes)) (items dynamodb),
                  update_calls := update_calls dynamodb @ requests_for B E ?n changes\<rparr>"
    by blast
  note r = apply_reconciles [OF assms(1) assms(5) cc assms(3)]
  from r(2) have parsed: "parse_items B (scan_all_items (fst (main B E a dynamodb)) ''INJECTION'') =
           Inr (applied B E ?n injections)"
    unfolding st .
  note s = r(3)
  note pairs = applied_pairs [of B injections E ?n]
  then have len: "length injections = length (applied B E ?n injections)"
    by (rule list_all2_lengthD)
  have each: "?ts i' = ?ts i \<and>
      (\<forall>t. ?ts i = PStr t \<and> t \<noteq> [] \<longrightarrow>
         (\<exists>v. dict_get i' ''vialId'' PNone = PStr v \<and>
              get_correct_vial_for_date B (PStr t) = Inr (PStr v) \<and>
              v \<notin> set DRY_STOCK_VIALS)) \<and>
      (?ts i = PStr [] \<or> ?ts i = PNone \<longrightarrow> i' = i)"
    if j: "j < length injections" and i: "i = injections ! j"
      and i': "i' = applied B E ?n injections ! j" for j i i'
  proof -
    from pairs j i i' have ts: "?ts i' = ?ts i"
      and falsy: "\<not> py_truthy B (?ts i) \<longrightarrow> i' = i"
      by (simp_all add: list_all2_conv_all_nth)
    from j len i' have mem: "i' \<in> set (applied B E ?n injections)" by simp
    have dated: "\<exists>v. dict_get i' ''vialId'' PNone = PStr v \<and>
              get_correct_vial_for_date B (PStr t) = Inr (PStr v) \<and>
              v \<notin> set DRY_STOCK_VIALS"
      if t: "?ts i = PStr t" "t \<noteq> []" for t
    proof -
      from s mem ts t(1) obtain cor where
        pol: "get_correct_vial_for_date B (PStr t) = Inr cor"
        and cur: "cor \<noteq> PNone \<longrightarrow> dict_get i' ''vialId'' PNone = cor"
        by fastforce
      from pol t(2) have cases: "cor = PStr ''vial_20240805_1'' \<or> cor = PStr ''vial_20240805_2'' \<or>
          cor = PStr ''vial_20241029_1''"
        by (auto simp: get_correct_vial_for_date_def split: if_splits)
      then obtain v where v: "cor = PStr v" by blast
      from active_not_dry [OF cases, of B] v have "v \<notin> set DRY_STOCK_VIALS" by auto
      with v pol cur show ?thesis by simp
    qed
    from falsy have "?ts i = PStr [] \<or> ?ts i = PNone \<longrightarrow> i' = i" by auto
    with ts dated show ?thesis by blast
  qed
  from len each have "list_all2
           (\<lambda>i i'.
              ?ts i' = ?ts i \<and>
              (\<forall>t. ?ts i = PStr t \<and> t \<noteq> [] \<longrightarrow>
                 (\<exists>v. dict_get i' ''vialId'' PNone = PStr v \<and>
                      get_correct_vial_for_date B (PStr t) = Inr (PStr v) \<and>
                      v \<notin> set DRY_STOCK_VIALS)) \<and>
              (?ts i = PStr [] \<or> ?ts i = PNone \<longrightarrow> i' = i))
           injections (applied B E ?n injections)"
    unfolding list_all2_conv_all_nth [of _ injections] by blast
  with parsed show ?thesis by blast
qed

theorem live_run_assigns_policy_vials_witness:
  "well_keyed (items sample_store) \<and> \<not> dry_run live_args \<and>
   (\<forall>n. failure sample_env n = None) \<and>
   parse_items whole (scan_all_items sample_store ''INJECTION'') = Inr sample_injections \<and>
   fst (main whole sample_env live_args sample_store) = sample_applied_store \<and>
   parse_items whole (scan_all_items sample_applied_store ''INJECTION'') = Inr sample_applied \<and>
   applied whole sample_env (length (update_calls sample_store)) sample_injections =
     sample_applied \<and>
   list_all2
     (\<lambda>i i'.
        dict_get i' ''timestamp'' (PStr []) = dict_get i ''timestamp'' (PStr []) \<and>
        (\<forall>t. dict_get i ''timestamp'' (PStr []) = PStr t \<and> t \<noteq> [] \<longrightarrow>
           (\<exists>v. dict_get i' ''vialId'' PNone = PStr v \<and>
                get_correct_vial_for_date whole (PStr t) = Inr (PStr v) \<and>
                v \<notin> set DRY_STOCK_VIALS)) \<and>
        (dict_get i ''timestamp'' (PStr []) = PStr [] \<or>
         dict_get i ''timestamp'' (PStr []) = PNone \<longrightarrow> i' = i))
     sample_injections sample_applied \<and>
   well_keyed (items undated_store) \<and>
   parse_items whole (scan_all_items undated_store ''INJECTION'') = Inr [undated_injection] \<and>
   dict_get undated_injection ''timestamp'' (PStr []) = PStr [] \<and>
   fst (main whole sample_env live_args undated_store) = undated_store \<and>
   applied whole sample_env (length (update_calls undated_store)) [undated_injection] =
     [undated_injection] \<and>
   list_all2
     (\<lambda>i i'.
        dict_get i' ''timestamp'' (PStr []) = dict_get i ''timestamp'' (PStr []) \<and>
        (\<forall>t. dict_get i ''timestamp'' (PStr []) = PStr t \<and> t \<noteq> [] \<longrightarrow>
           (\<exists>v. dict_get i' ''vialId'' PNone = PStr v \<and>
                get_correct_vial_for_date whole (PStr t) = Inr (PStr v) \<and>
                v \<notin> set DRY_STOCK_VIALS)) \<and>
        (dict_get i ''timestamp'' (PStr []) = PStr [] \<or>
         dict_get i ''timestamp'' (PStr []) = PNone \<longrightarrow> i' = i))
     [undated_injection] [undated_injection]"
proof -
  have p: "parse_items whole (scan_all_items sample_store ''INJECTION'') = Inr sample_injections"
    by code_simp
  have st: "fst (main whole sample_env live_args sample_store) = sample_applied_store"
    by code_simp
  have p': "parse_items whole (scan_all_items sample_applied_store ''INJECTION'') = Inr sample_applied"
    by code_simp
  have a: "applied whole sample_env (length (update_calls sample_store)) sample_injections =
     sample_applied"
    by code_simp
  have wk: "well_keyed (items undated_store)"
    by code_simp
  have ok: "snd (main whole sample_env live_args undated_store) =
      Inr [''Connecting to DynamoDB (profile: reta-admin, region: eu-west-1)...'',
           ''Fetching all injections...'', ''  Found 1 injections'',
           ''Fetching all vials...'', ''  Found 0 vials'',
           rule60, ''Current vial distribution:'', line60,
           ''  NULL/unassigned: 1 shots, 2.0mg total'',
           ''    - unknown: 2.0mg'',
           rule60, ''Changes needed:'', line60,
           ''  [!] Cannot determine vial for '',
           ''  No changes needed - distribution is already correct!'']"
    by code_simp
  have up: "parse_items whole (scan_all_items undated_store ''INJECTION'') = Inr [undated_injection]"
    by code_simp
  have uts: "dict_get undated_injection ''timestamp'' (PStr []) = PStr []"
    by code_simp
  have ust: "fst (main whole sample_env live_args undated_store) = undated_store"
    by code_simp
  have ua: "applied whole sample_env (length (update_calls undated_store)) [undated_injection] =
     [undated_injection]"
    by code_simp
  from live_run_assigns_policy_vials [OF sample_preconditions sample_live_run p]
    live_run_assigns_policy_vials [OF wk sample_preconditions(2) sample_preconditions(3) ok up]
    sample_preconditions p st p' a wk up uts ust ua
  show ?thesis by (simp only: simp_thms)
qed

end
